theory Spec2Isabelle
  imports Complex_Main "HOL-Library.Word"
begin

text \<open>
  The Diagnosis Request Client of doc-zaddy: the React component \<^verbatim>\<open>App\<close>, which holds the
  typed symptoms, splits them into tokens, posts them to \<^verbatim>\<open>/api/diagnose\<close> and shows the
  answer. The source has two copies of the component, \<^verbatim>\<open>src/unnamed/part_000\<close> with a
  hardcoded local address and \<^verbatim>\<open>src/doc-zaddy-ui/src/App.js\<close> with a configurable one.
  The handler \<^verbatim>\<open>handleDiagnose\<close> is modelled as a function from the stored text and the
  outcome of the network to the ordered list of its effects; the library functions it
  calls (\<^verbatim>\<open>split\<close>, \<^verbatim>\<open>trim\<close>, property reads, \<^verbatim>\<open>||\<close>, Number arithmetic) are modelled after
  ECMAScript.
\<close>

section \<open>JavaScript strings\<close>

text \<open>
  A JavaScript string is a sequence of UTF-16 code units. The regular expression
  \<^verbatim>\<open>/\s+|,+/\<close> has no \<^verbatim>\<open>u\<close> flag, so \<^verbatim>\<open>split\<close> and \<^verbatim>\<open>trim\<close> both work code unit by
  code unit.
\<close>

type_synonym code_unit = "16 word"
type_synonym jsstring = "code_unit list"

text \<open>An ASCII literal of the source, as code units.\<close>

definition str :: "string \<Rightarrow> jsstring" where
  "str s = map (\<lambda>c. of_nat (of_char c)) s"

text \<open>
  The class \<^verbatim>\<open>\s\<close> and the characters removed by \<^verbatim>\<open>trim()\<close> are the same set in
  ECMAScript: WhiteSpace (TAB, VT, FF, SP, NBSP, ZWNBSP and the other space separators)
  together with LineTerminator (LF, CR, LS, PS).
\<close>

definition is_white_space :: "code_unit \<Rightarrow> bool" where
  "is_white_space c \<longleftrightarrow>
     c \<in> {0x9, 0xA, 0xB, 0xC, 0xD, 0x20, 0xA0, 0x1680, 0x2028, 0x2029, 0x202F, 0x205F,
          0x3000, 0xFEFF}
     \<or> (0x2000 \<le> c \<and> c \<le> 0x200A)"

definition is_comma :: "code_unit \<Rightarrow> bool" where
  "is_comma c \<longleftrightarrow> c = 0x2C"

text \<open>
  The match of \<^verbatim>\<open>/\s+|,+/\<close> anchored at the head of a string, as the length of the matched
  text; 0 when the pattern does not match there. The first alternative is tried first and
  each \<^verbatim>\<open>+\<close> is greedy.
\<close>

definition sep_match :: "jsstring \<Rightarrow> nat" where
  "sep_match s =
     (let n = length (takeWhile is_white_space s)
      in if 0 < n then n else length (takeWhile is_comma s))"

text \<open>
  \<^verbatim>\<open>symptoms.split(/\s+|,+/)\<close>: the loop of RegExp.prototype[Symbol.split]. The first
  argument is the piece collected since the end of the last match (the substring from p to
  q), the second the text from position q on. Where the pattern does not match at q, q
  moves one code unit on; where it matches, the piece is emitted and both p and q move to
  the end of the match. The text left at the end is the last piece, so the empty string
  splits to one empty piece.
\<close>

function split_from :: "jsstring \<Rightarrow> jsstring \<Rightarrow> jsstring list" where
  "split_from piece [] = [piece]"
| "split_from piece (c # cs) =
     (let n = sep_match (c # cs)
      in if n = 0 then split_from (piece @ [c]) cs
         else piece # split_from [] (drop n (c # cs)))"
  by pat_completeness auto
termination
  by (relation "measure (\<lambda>(piece, s). length s)") auto

definition split_sep :: "jsstring \<Rightarrow> jsstring list" where
  "split_sep s = split_from [] s"

text \<open>\<^verbatim>\<open>t.trim()\<close>\<close>

definition trim :: "jsstring \<Rightarrow> jsstring" where
  "trim t = rev (dropWhile is_white_space (rev (dropWhile is_white_space t)))"

text \<open>\<^verbatim>\<open>Boolean(t)\<close> on a string: the empty string is the only falsy one.\<close>

definition Boolean_str :: "jsstring \<Rightarrow> bool" where
  "Boolean_str t \<longleftrightarrow> t \<noteq> []"

text \<open>
  \<^verbatim>\<open>symptoms.split(/\s+|,+/).map((t) => t.trim()).filter(Boolean)\<close>
\<close>

definition tokenize :: "jsstring \<Rightarrow> jsstring list" where
  "tokenize symptoms = filter Boolean_str (map trim (split_sep symptoms))"


subsection \<open>The reference tokenisation\<close>

text \<open>
  The tokenisation in the words of the specification: split the input on runs of one or
  more whitespace characters or one or more commas, trim each piece, drop the empty pieces.
  A piece is the text up to the next separator; the run that ends it is the maximal block
  of whitespace, or the maximal block of commas, that starts there.
\<close>

definition is_separator :: "code_unit \<Rightarrow> bool" where
  "is_separator c \<longleftrightarrow> is_white_space c \<or> is_comma c"

definition drop_run :: "jsstring \<Rightarrow> jsstring" where
  "drop_run s =
     (case s of [] \<Rightarrow> []
      | c # _ \<Rightarrow> if is_white_space c then dropWhile is_white_space s else dropWhile is_comma s)"

function spec_pieces :: "jsstring \<Rightarrow> jsstring list" where
  "spec_pieces s =
     (let piece = takeWhile (\<lambda>c. \<not> is_separator c) s;
          rest = dropWhile (\<lambda>c. \<not> is_separator c) s
      in if rest = [] then [piece] else piece # spec_pieces (drop_run rest))"
  by pat_completeness auto
termination
proof (relation "measure length", goal_cases)
  case 1
  show ?case by simp
next
  case (2 s piece rest)
  then have ne: "rest \<noteq> []" and rest: "rest = dropWhile (\<lambda>c. \<not> is_separator c) s"
    by simp_all
  from ne obtain c cs where r: "rest = c # cs"
    by (cases rest) simp_all
  have "dropWhile (\<lambda>c. \<not> is_separator c) s \<noteq> []"
    using ne rest by simp
  from hd_dropWhile[OF this] have "is_separator (hd rest)"
    unfolding rest by simp
  then have "is_separator c"
    unfolding r by simp
  then have "length (drop_run rest) < length rest"
    using r by (auto simp: drop_run_def is_separator_def length_dropWhile_le less_Suc_eq_le)
  moreover have "length rest \<le> length s"
    using rest by (simp add: length_dropWhile_le)
  ultimately show ?case by simp
qed

declare spec_pieces.simps [simp del]

definition spec_tokens :: "jsstring \<Rightarrow> jsstring list" where
  "spec_tokens s = filter (\<lambda>p. p \<noteq> []) (map trim (spec_pieces s))"

text \<open>\<^verbatim>\<open>tokens.join(" ")\<close>, used to state that tokenising is idempotent.\<close>

fun join_space :: "jsstring list \<Rightarrow> jsstring" where
  "join_space [] = []"
| "join_space [t] = t"
| "join_space (t # u # ts) = t @ [0x20] @ join_space (u # ts)"

section \<open>JavaScript values\<close>

text \<open>
  A Number is an IEEE 754 binary64 value: not-a-number, an infinity with its sign (True
  for negative), or a finite value \<open>\<plusminus> m * 2 ^ e\<close> given by sign, significand and exponent.
\<close>

datatype number = NaN | Infinity bool | Finite bool nat int

text \<open>The value \<^verbatim>\<open>resp.json()\<close> resolves to, and what the state hooks hold.\<close>

datatype json =
    JNull
  | JBool bool
  | JNum number
  | JStr jsstring
  | JArr "json list"
  | JObj "(jsstring \<times> json) list"

text \<open>ToBoolean: the falsy values are null, false, both zeros, NaN and the empty string.\<close>

fun ToBoolean :: "json \<Rightarrow> bool" where
  "ToBoolean JNull = False"
| "ToBoolean (JBool b) = b"
| "ToBoolean (JNum NaN) = False"
| "ToBoolean (JNum (Infinity s)) = True"
| "ToBoolean (JNum (Finite s m e)) = (m \<noteq> 0)"
| "ToBoolean (JStr t) = (t \<noteq> [])"
| "ToBoolean (JArr xs) = True"
| "ToBoolean (JObj kvs) = True"

text \<open>
  A property read may give \<^verbatim>\<open>undefined\<close>, modelled as \<open>None\<close>. \<open>when_truthy\<close> keeps a value
  that passes ToBoolean, so that \<^verbatim>\<open>a || b\<close> is \<open>js_or a b\<close>.
\<close>

definition when_truthy :: "json option \<Rightarrow> json option" where
  "when_truthy v = (case v of None \<Rightarrow> None | Some x \<Rightarrow> if ToBoolean x then Some x else None)"

definition js_or :: "json option \<Rightarrow> json \<Rightarrow> json" where
  "js_or a b = (case when_truthy a of Some x \<Rightarrow> x | None \<Rightarrow> b)"

datatype error_name = Error | TypeError | SyntaxError | ReferenceError

datatype js_error = Exception error_name jsstring

text \<open>
  \<^verbatim>\<open>data.results\<close> and \<^verbatim>\<open>data.message\<close>: reading a property of null throws a TypeError
  (the message is the one V8 gives; it is only ever logged); an object gives its own
  property or \<^verbatim>\<open>undefined\<close>; on a boolean, number, string or array neither name is
  defined by a prototype, so the read gives \<^verbatim>\<open>undefined\<close>.
\<close>

definition null_property_error :: "jsstring \<Rightarrow> js_error" where
  "null_property_error k =
     Exception TypeError
       (str ''Cannot read properties of null (reading '' @ [0x27] @ k @ [0x27] @ str '')'')"

fun get_property :: "json \<Rightarrow> jsstring \<Rightarrow> js_error + json option" where
  "get_property JNull k = Inl (null_property_error k)"
| "get_property (JObj kvs) k = Inr (map_of kvs k)"
| "get_property v k = Inr None"

text \<open>An integer status code in a template literal: its decimal digits.\<close>

fun decimal :: "nat \<Rightarrow> jsstring" where
  "decimal n =
     (if n < 10 then [of_nat (48 + n)] else decimal (n div 10) @ [of_nat (48 + n mod 10)])"

declare decimal.simps [simp del]

section \<open>The network as seen by the handler\<close>

text \<open>
  The body handed to \<^verbatim>\<open>fetch\<close> is \<^verbatim>\<open>JSON.stringify\<close> of a value; the serialisation is kept
  symbolic, as the value it serialises.
\<close>

datatype wire_text = JSON_stringify json

record request =
  url :: jsstring
  http_method :: jsstring
  headers :: "(jsstring \<times> jsstring) list"
  body :: wire_text

text \<open>
  A Response as far as the handler reads it: \<^verbatim>\<open>ok\<close>, \<^verbatim>\<open>status\<close>, \<^verbatim>\<open>statusText\<close>, what
  \<^verbatim>\<open>text()\<close> resolves to (\<open>None\<close> when it rejects) and what \<^verbatim>\<open>json()\<close> resolves to or
  rejects with.
\<close>

record response =
  ok :: bool
  status :: nat
  statusText :: jsstring
  body_text :: "jsstring option"
  body_json :: "js_error + json"

datatype net_outcome = FetchRejected js_error | FetchResolved response

section \<open>The component\<close>

text \<open>The four \<^verbatim>\<open>useState\<close> cells of \<^verbatim>\<open>App\<close>.\<close>

record view =
  symptoms :: jsstring
  results :: json
  loading :: bool
  error :: json

text \<open>
  What a run of \<^verbatim>\<open>handleDiagnose\<close> does, in order: calls of the state setters, the call of
  \<^verbatim>\<open>fetch\<close>, and \<^verbatim>\<open>console.error\<close>. Everything after \<open>Fetch\<close> happens once the awaited
  call has settled.
\<close>

datatype effect =
    SetError json
  | SetResults json
  | SetLoading bool
  | Fetch request
  | ConsoleError jsstring js_error

text \<open>How the promise returned by the async handler settles.\<close>

datatype completion = Fulfilled | Rejected js_error

text \<open>
  \<^verbatim>\<open>handleDiagnose\<close> of the variant with the hardcoded local address. \<open>in_try\<close> and
  \<open>thrown\<close> are the setter calls made inside the \<^verbatim>\<open>try\<close> block and the exception it ends
  with, if any; \<open>in_catch\<close> is the \<^verbatim>\<open>catch\<close> block; \<^verbatim>\<open>finally\<close> runs last.
\<close>

definition handleDiagnose_local :: "jsstring \<Rightarrow> net_outcome \<Rightarrow> effect list \<times> completion" where
  "handleDiagnose_local symptoms_text net =
     (let API_BASE = str ''http://127.0.0.1:8001'';
          tokens = filter Boolean_str (map trim (split_sep symptoms_text))
      in if length tokens = 0
         then ([SetError (JStr []), SetResults (JArr []),
                SetError (JStr (str ''Please enter at least one symptom.''))], Fulfilled)
         else
           let req = \<lparr>url = API_BASE @ str ''/api/diagnose'',
                      http_method = str ''POST'',
                      headers = [(str ''Content-Type'', str ''application/json'')],
                      body = JSON_stringify (JObj [(str ''symptoms'', JArr (map JStr tokens))])\<rparr>;
               (in_try, thrown) =
                 (case net of
                    FetchRejected err \<Rightarrow> ([], Some err)
                  | FetchResolved resp \<Rightarrow>
                      if \<not> ok resp then
                        (let txt = (case body_text resp of Some t \<Rightarrow> t | None \<Rightarrow> statusText resp)
                         in ([], Some (Exception Error
                               (str ''API error '' @ decimal (status resp) @ str '': '' @ txt))))
                      else
                        (case body_json resp of
                           Inl err \<Rightarrow> ([], Some err)
                         | Inr data \<Rightarrow>
                             (case get_property data (str ''results'') of
                                Inl err \<Rightarrow> ([], Some err)
                              | Inr data_results \<Rightarrow>
                                  (case when_truthy data_results of
                                     Some r \<Rightarrow> ([SetResults r], None)
                                   | None \<Rightarrow>
                                       (case get_property data (str ''message'') of
                                          Inl err \<Rightarrow> ([], Some err)
                                        | Inr data_message \<Rightarrow>
                                            ([SetError (js_or data_message
                                                (JStr (str ''No results returned'')))], None))))));
               in_catch =
                 (case thrown of
                    None \<Rightarrow> []
                  | Some err \<Rightarrow>
                      [ConsoleError (str ''Diagnosis request failed:'') err,
                       SetError (JStr (str ''Failed to fetch diagnosis. Please check API connection.''))])
           in ([SetError (JStr []), SetResults (JArr []), SetLoading True, Fetch req]
                 @ in_try @ in_catch @ [SetLoading False], Fulfilled))"

text \<open>
  \<^verbatim>\<open>handleDiagnose\<close> of the variant with the configurable address:
  \<^verbatim>\<open>process.env.REACT_APP_API_URL || "https://doc-zaddy.onrender.com"\<close>, the variable unset
  being \<open>None\<close>. In this file the statement after the validation message is followed by a
  stray identifier \<^verbatim>\<open>s\<close>, read before \<^verbatim>\<open>return\<close>: the name is not declared, so the read
  throws a ReferenceError outside the \<^verbatim>\<open>try\<close> block and the promise rejects.
\<close>

definition handleDiagnose_env ::
    "jsstring option \<Rightarrow> jsstring \<Rightarrow> net_outcome \<Rightarrow> effect list \<times> completion" where
  "handleDiagnose_env REACT_APP_API_URL symptoms_text net =
     (let API_BASE =
            (case REACT_APP_API_URL of
               None \<Rightarrow> str ''https://doc-zaddy.onrender.com''
             | Some u \<Rightarrow> if u \<noteq> [] then u else str ''https://doc-zaddy.onrender.com'');
          tokens = filter Boolean_str (map trim (split_sep symptoms_text))
      in if length tokens = 0
         then ([SetError (JStr []), SetResults (JArr []),
                SetError (JStr (str ''Please enter at least one symptom.''))],
               Rejected (Exception ReferenceError (str ''s is not defined'')))
         else
           let req = \<lparr>url = API_BASE @ str ''/api/diagnose'',
                      http_method = str ''POST'',
                      headers = [(str ''Content-Type'', str ''application/json'')],
                      body = JSON_stringify (JObj [(str ''symptoms'', JArr (map JStr tokens))])\<rparr>;
               (in_try, thrown) =
                 (case net of
                    FetchRejected err \<Rightarrow> ([], Some err)
                  | FetchResolved resp \<Rightarrow>
                      if \<not> ok resp then
                        (let txt = (case body_text resp of Some t \<Rightarrow> t | None \<Rightarrow> statusText resp)
                         in ([], Some (Exception Error
                               (str ''API error '' @ decimal (status resp) @ str '': '' @ txt))))
                      else
                        (case body_json resp of
                           Inl err \<Rightarrow> ([], Some err)
                         | Inr data \<Rightarrow>
                             (case get_property data (str ''results'') of
                                Inl err \<Rightarrow> ([], Some err)
                              | Inr data_results \<Rightarrow>
                                  (case when_truthy data_results of
                                     Some r \<Rightarrow> ([SetResults r], None)
                                   | None \<Rightarrow>
                                       (case get_property data (str ''message'') of
                                          Inl err \<Rightarrow> ([], Some err)
                                        | Inr data_message \<Rightarrow>
                                            ([SetError (js_or data_message
                                                (JStr (str ''No results returned'')))], None))))));
               in_catch =
                 (case thrown of
                    None \<Rightarrow> []
                  | Some err \<Rightarrow>
                      [ConsoleError (str ''Diagnosis request failed:'') err,
                       SetError (JStr (str ''Failed to fetch diagnosis. Please check API connection.''))])
           in ([SetError (JStr []), SetResults (JArr []), SetLoading True, Fetch req]
                 @ in_try @ in_catch @ [SetLoading False], Fulfilled))"

text \<open>The two copies of the component, and the base address each one uses.\<close>

datatype variant = Hardcoded | Configurable "jsstring option"

fun handleDiagnose :: "variant \<Rightarrow> jsstring \<Rightarrow> net_outcome \<Rightarrow> effect list \<times> completion" where
  "handleDiagnose Hardcoded = handleDiagnose_local"
| "handleDiagnose (Configurable env) = handleDiagnose_env env"

fun api_base :: "variant \<Rightarrow> jsstring" where
  "api_base Hardcoded = str ''http://127.0.0.1:8001''"
| "api_base (Configurable None) = str ''https://doc-zaddy.onrender.com''"
| "api_base (Configurable (Some u)) = (if u \<noteq> [] then u else str ''https://doc-zaddy.onrender.com'')"

text \<open>The effect of a run on the state cells: each setter replaces its own cell.\<close>

fun apply_effect :: "effect \<Rightarrow> view \<Rightarrow> view" where
  "apply_effect (SetError e) v = v\<lparr>error := e\<rparr>"
| "apply_effect (SetResults r) v = v\<lparr>results := r\<rparr>"
| "apply_effect (SetLoading b) v = v\<lparr>loading := b\<rparr>"
| "apply_effect (Fetch req) v = v"
| "apply_effect (ConsoleError label err) v = v"

definition run_effects :: "effect list \<Rightarrow> view \<Rightarrow> view" where
  "run_effects es v = fold apply_effect es v"

text \<open>
  Submit: the handler reads \<^verbatim>\<open>symptoms\<close> from the state and its setter calls are applied
  in order.
\<close>

definition Submit :: "variant \<Rightarrow> net_outcome \<Rightarrow> view \<Rightarrow> view" where
  "Submit var net v = run_effects (fst (handleDiagnose var (symptoms v) net)) v"

text \<open>The requests a run sends, and what it logs.\<close>

fun fetches :: "effect list \<Rightarrow> request list" where
  "fetches [] = []"
| "fetches (Fetch req # es) = req # fetches es"
| "fetches (e # es) = fetches es"

fun logged :: "effect list \<Rightarrow> (jsstring \<times> js_error) list" where
  "logged [] = []"
| "logged (ConsoleError label err # es) = (label, err) # logged es"
| "logged (e # es) = logged es"


text \<open>
  The shape shared by the runs of both copies, used to state results about either: the
  request, the \<^verbatim>\<open>catch\<close> block, what the handler does once the awaited call has settled,
  and the setter calls of a run that stops at validation.
\<close>

definition diagnose_request :: "jsstring \<Rightarrow> jsstring list \<Rightarrow> request" where
  "diagnose_request base tokens =
     \<lparr>url = base @ str ''/api/diagnose'',
      http_method = str ''POST'',
      headers = [(str ''Content-Type'', str ''application/json'')],
      body = JSON_stringify (JObj [(str ''symptoms'', JArr (map JStr tokens))])\<rparr>"

definition generic_failure :: "js_error \<Rightarrow> effect list" where
  "generic_failure err =
     [ConsoleError (str ''Diagnosis request failed:'') err,
      SetError (JStr (str ''Failed to fetch diagnosis. Please check API connection.''))]"

fun settled :: "net_outcome \<Rightarrow> effect list" where
  "settled (FetchRejected err) = generic_failure err"
| "settled (FetchResolved resp) =
     (if \<not> ok resp then
        generic_failure (Exception Error (str ''API error '' @ decimal (status resp) @ str '': ''
          @ (case body_text resp of Some t \<Rightarrow> t | None \<Rightarrow> statusText resp)))
      else
        (case body_json resp of
           Inl err \<Rightarrow> generic_failure err
         | Inr data \<Rightarrow>
             (case get_property data (str ''results'') of
                Inl err \<Rightarrow> generic_failure err
              | Inr data_results \<Rightarrow>
                  (case when_truthy data_results of
                     Some r \<Rightarrow> [SetResults r]
                   | None \<Rightarrow>
                       (case get_property data (str ''message'') of
                          Inl err \<Rightarrow> generic_failure err
                        | Inr data_message \<Rightarrow>
                            [SetError (js_or data_message (JStr (str ''No results returned'')))])))))"

definition validation_failure :: "effect list" where
  "validation_failure =
     [SetError (JStr []), SetResults (JArr []),
      SetError (JStr (str ''Please enter at least one symptom.''))]"

text \<open>A run with the address of every request replaced, to compare runs up to the address.\<close>

fun set_url :: "jsstring \<Rightarrow> effect \<Rightarrow> effect" where
  "set_url u (Fetch req) = Fetch (req\<lparr>url := u\<rparr>)"
| "set_url u e = e"

section \<open>Rendering the confidence\<close>

text \<open>
  \<^verbatim>\<open>{Math.round((r.confidence || 0) * 100)}%\<close> works on Numbers. The product of two finite
  Numbers is the exact product rounded to binary64, to nearest with ties to even:
  \<open>round_binary64 s M E\<close> rounds \<open>\<plusminus> M * 2 ^ E\<close>. The significand keeps 53 bits and the
  exponent does not go below -1074; \<open>k\<close> is the number of low bits to give up. A result of
  magnitude \<open>2 ^ 1024\<close> or more is an infinity.
\<close>

fun bit_length :: "nat \<Rightarrow> nat" where
  "bit_length n = (if n = 0 then 0 else Suc (bit_length (n div 2)))"

declare bit_length.simps [simp del]

definition round_binary64 :: "bool \<Rightarrow> nat \<Rightarrow> int \<Rightarrow> number" where
  "round_binary64 s M E =
     (let k = max (int (bit_length M) - 53) (- 1074 - E)
      in if k \<le> 0
         then (if 1024 < int (bit_length M) + E then Infinity s else Finite s M E)
         else
           let q = M div 2 ^ nat k;
               r = M mod 2 ^ nat k;
               half = 2 ^ (nat k - 1);
               q' = (if half < r \<or> (r = half \<and> odd q) then q + 1 else q)
           in if 1024 < int (bit_length q') + (E + k) then Infinity s else Finite s q' (E + k))"

text \<open>\<^verbatim>\<open>x * y\<close> on Numbers.\<close>

fun number_times :: "number \<Rightarrow> number \<Rightarrow> number" where
  "number_times NaN y = NaN"
| "number_times (Infinity s) NaN = NaN"
| "number_times (Finite s m e) NaN = NaN"
| "number_times (Infinity s) (Infinity t) = Infinity (s \<noteq> t)"
| "number_times (Infinity s) (Finite t n f) = (if n = 0 then NaN else Infinity (s \<noteq> t))"
| "number_times (Finite s m e) (Infinity t) = (if m = 0 then NaN else Infinity (s \<noteq> t))"
| "number_times (Finite s m e) (Finite t n f) = round_binary64 (s \<noteq> t) (m * n) (e + f)"

text \<open>
  \<^verbatim>\<open>Math.round(x)\<close>: the integer closest to x, the larger one on a tie; NaN, the infinities
  and integers are returned as they are, and a result of zero keeps the sign of x.
\<close>

fun Math_round :: "number \<Rightarrow> number" where
  "Math_round NaN = NaN"
| "Math_round (Infinity s) = Infinity s"
| "Math_round (Finite s m e) =
     (if 0 \<le> e then Finite s m e
      else
        let d = 2 ^ nat (- e);
            a = (if s then - int m else int m);
            n = (2 * a + d) div (2 * d)
        in Finite s (nat \<bar>n\<bar>) 0)"

text \<open>
  The text React shows for a Number child. An integer below \<open>2 ^ 53\<close> is written with its
  decimal digits, both zeros as \<^verbatim>\<open>0\<close>. From \<open>2 ^ 53\<close> on JavaScript writes the shortest
  digits that read back as the same Number, padded with zeros; that format and the format
  of fractions are outside this model (\<open>None\<close>), and \<open>Math_round\<close> never yields a fraction.
\<close>

definition integer_text :: "bool \<Rightarrow> nat \<Rightarrow> jsstring option" where
  "integer_text s n =
     (if n < 2 ^ 53 then Some ((if s \<and> n \<noteq> 0 then str ''-'' else []) @ decimal n) else None)"

fun Number_toString :: "number \<Rightarrow> jsstring option" where
  "Number_toString NaN = Some (str ''NaN'')"
| "Number_toString (Infinity s) = Some ((if s then str ''-'' else []) @ str ''Infinity'')"
| "Number_toString (Finite s m e) =
     (if 0 \<le> e then integer_text s (m * 2 ^ nat e)
      else if m mod 2 ^ nat (- e) = 0 then integer_text s (m div 2 ^ nat (- e))
      else None)"

text \<open>
  ToNumber on the left operand of \<^verbatim>\<open>*\<close>. The operand is \<^verbatim>\<open>r.confidence || 0\<close>, so it is 0
  or truthy; the conversion of a non-empty string, an array or an object is outside this
  model (\<open>None\<close>).
\<close>

fun ToNumber :: "json \<Rightarrow> number option" where
  "ToNumber (JNum x) = Some x"
| "ToNumber JNull = Some (Finite False 0 0)"
| "ToNumber (JBool b) = Some (Finite False (if b then 1 else 0) 0)"
| "ToNumber (JStr t) = (if t = [] then Some (Finite False 0 0) else None)"
| "ToNumber (JArr xs) = None"
| "ToNumber (JObj kvs) = None"

text \<open>
  The percentage shown for an entry, from the value of \<^verbatim>\<open>r.confidence\<close> (\<open>None\<close> for
  \<^verbatim>\<open>undefined\<close>, a missing field).
\<close>

definition percent_text :: "json option \<Rightarrow> jsstring option" where
  "percent_text confidence =
     (case ToNumber (js_or confidence (JNum (Finite False 0 0))) of
        None \<Rightarrow> None
      | Some x \<Rightarrow>
          (case Number_toString (Math_round (number_times x (Finite False 100 0))) of
             None \<Rightarrow> None
           | Some t \<Rightarrow> Some (t @ str ''%'')))"

text \<open>
  The mathematical value of a finite Number, the Numbers that binary64 has, and rounding
  half-up to the nearest integer in the words of the specification.
\<close>

definition finite_value :: "bool \<Rightarrow> nat \<Rightarrow> int \<Rightarrow> rat" where
  "finite_value s m e = (if s then - 1 else 1) * of_nat m * 2 powi e"

fun number_value :: "number \<Rightarrow> rat option" where
  "number_value NaN = None"
| "number_value (Infinity s) = None"
| "number_value (Finite s m e) = Some (finite_value s m e)"

fun is_binary64 :: "number \<Rightarrow> bool" where
  "is_binary64 NaN = True"
| "is_binary64 (Infinity s) = True"
| "is_binary64 (Finite s m e) = (m < 2 ^ 53 \<and> - 1074 \<le> e \<and> int (bit_length m) + e \<le> 1024)"

definition half_up :: "rat \<Rightarrow> int" where
  "half_up q = \<lfloor>q + 1 / 2\<rfloor>"

section \<open>Sample inputs\<close>

text \<open>
  A view with text typed in and stale results and error, and the responses used as
  examples below: a 200 response by what \<^verbatim>\<open>json()\<close> gives (its \<^verbatim>\<open>text()\<close> is never called),
  and a 500 response with a plain text body.
\<close>

definition sample_view :: view where
  "sample_view =
     \<lparr>symptoms = str ''fever, cough   headache'', results = JArr [JNull], loading = False,
      error = JStr (str ''stale'')\<rparr>"

definition response_ok :: "json \<Rightarrow> response" where
  "response_ok data =
     \<lparr>ok = True, status = 200, statusText = str ''OK'', body_text = None, body_json = Inr data\<rparr>"

definition response_500 :: response where
  "response_500 =
     \<lparr>ok = False, status = 500, statusText = str ''Internal Server Error'',
      body_text = Some (str ''boom''),
      body_json = Inl (Exception SyntaxError (str ''Unexpected token b in JSON''))\<rparr>"

text \<open>
  The successful response of the specification's example, with 0.67 as the binary64 number
  nearest to it.
\<close>

definition common_cold :: json where
  "common_cold =
     JArr [JObj [(str ''disease'', JStr (str ''common_cold'')),
                 (str ''matched'', JNum (Finite False 2 0)),
                 (str ''total'', JNum (Finite False 3 0)),
                 (str ''confidence'', JNum (Finite False 6034823500676465 (- 53)))]]"

section \<open>Tokenisation\<close>

lemma sep_match_0: "sep_match (c # cs) = 0 \<longleftrightarrow> \<not> is_separator c"
  by (simp add: sep_match_def is_separator_def Let_def)

lemma drop_sep_match: "is_separator c \<Longrightarrow> drop (sep_match (c # cs)) (c # cs) = drop_run (c # cs)"
  by (auto simp: sep_match_def is_separator_def drop_run_def Let_def dropWhile_eq_drop)

lemma spec_pieces_Nil: "spec_pieces [] = [[]]"
  by (simp add: spec_pieces.simps)

lemma spec_pieces_sep: "is_separator c \<Longrightarrow> spec_pieces (c # cs) = [] # spec_pieces (drop_run (c # cs))"
  by (subst spec_pieces.simps) simp

lemma spec_pieces_nonsep:
  "\<not> is_separator c \<Longrightarrow> spec_pieces (c # cs) = (c # hd (spec_pieces cs)) # tl (spec_pieces cs)"
  by (subst spec_pieces.simps, subst (2 3) spec_pieces.simps) (simp add: Let_def)

lemma spec_pieces_ne: "spec_pieces s \<noteq> []"
  by (subst spec_pieces.simps) (simp add: Let_def)

lemma split_from_spec: "split_from p s = (p @ hd (spec_pieces s)) # tl (spec_pieces s)"
proof (induction p s rule: split_from.induct)
  case (1 piece)
  show ?case by (simp add: spec_pieces_Nil)
next
  case (2 piece c cs)
  show ?case
  proof (cases "is_separator c")
    case True
    then have n: "sep_match (c # cs) \<noteq> 0" by (simp add: sep_match_0)
    have "split_from piece (c # cs) = piece # split_from [] (drop_run (c # cs))"
      using n True by (simp add: drop_sep_match del: drop_Suc_Cons)
    also have "split_from [] (drop_run (c # cs)) = spec_pieces (drop_run (c # cs))"
      using "2.IH"(2)[OF refl n] True spec_pieces_ne[of "drop_run (c # cs)"]
      by (simp add: drop_sep_match del: drop_Suc_Cons)
    finally show ?thesis using True by (simp add: spec_pieces_sep)
  next
    case False
    then have n: "sep_match (c # cs) = 0" by (simp add: sep_match_0)
    show ?thesis using "2.IH"(1)[OF refl n] n False by (simp add: spec_pieces_nonsep)
  qed
qed

lemma split_sep_spec: "split_sep s = spec_pieces s"
  using spec_pieces_ne[of s] by (simp add: split_sep_def split_from_spec)

lemma tokenize_spec: "tokenize s = spec_tokens s"
  by (simp add: tokenize_def spec_tokens_def split_sep_spec Boolean_str_def[abs_def])

lemma trim_id: "\<forall>c\<in>set p. \<not> is_white_space c \<Longrightarrow> trim p = p"
proof -
  assume a: "\<forall>c\<in>set p. \<not> is_white_space c"
  then have 1: "dropWhile is_white_space p = p"
    by (cases p) auto
  from a have "\<forall>c\<in>set (rev p). \<not> is_white_space c" by simp
  then have 2: "dropWhile is_white_space (rev p) = rev p"
    by (cases "rev p") auto
  show ?thesis by (simp add: trim_def 1 2)
qed

lemma spec_pieces_last:
  "dropWhile (\<lambda>c. \<not> is_separator c) s = [] \<Longrightarrow>
   spec_pieces s = [takeWhile (\<lambda>c. \<not> is_separator c) s]"
  by (subst spec_pieces.simps) (simp only: Let_def if_True simp_thms)

lemma spec_pieces_more:
  "dropWhile (\<lambda>c. \<not> is_separator c) s \<noteq> [] \<Longrightarrow>
   spec_pieces s = takeWhile (\<lambda>c. \<not> is_separator c) s
     # spec_pieces (drop_run (dropWhile (\<lambda>c. \<not> is_separator c) s))"
  by (subst spec_pieces.simps) (simp only: Let_def if_False simp_thms)

lemma takeWhile_sep_free: "c \<in> set (takeWhile (\<lambda>c. \<not> is_separator c) s) \<Longrightarrow> \<not> is_separator c"
  by (auto dest: set_takeWhileD)

lemma spec_pieces_sep_free: "p \<in> set (spec_pieces s) \<Longrightarrow> c \<in> set p \<Longrightarrow> \<not> is_separator c"
proof (induction s arbitrary: p rule: spec_pieces.induct)
  case (1 s)
  show ?case
  proof (cases "dropWhile (\<lambda>c. \<not> is_separator c) s = []")
    case True
    from "1.prems"(1) have "p = takeWhile (\<lambda>c. \<not> is_separator c) s"
      unfolding spec_pieces_last[OF True] by simp
    with "1.prems"(2) show ?thesis by (simp add: takeWhile_sep_free)
  next
    case False
    from "1.prems"(1) have "p = takeWhile (\<lambda>c. \<not> is_separator c) s
        \<or> p \<in> set (spec_pieces (drop_run (dropWhile (\<lambda>c. \<not> is_separator c) s)))"
      unfolding spec_pieces_more[OF False] by simp
    then show ?thesis
    proof
      assume "p = takeWhile (\<lambda>c. \<not> is_separator c) s"
      with "1.prems"(2) show ?thesis by (simp add: takeWhile_sep_free)
    next
      assume "p \<in> set (spec_pieces (drop_run (dropWhile (\<lambda>c. \<not> is_separator c) s)))"
      from "1.IH"[OF refl refl False this "1.prems"(2)] show ?thesis .
    qed
  qed
qed

lemma trim_spec_pieces: "map trim (spec_pieces s) = spec_pieces s"
proof (rule map_idI)
  fix p assume "p \<in> set (spec_pieces s)"
  then have "\<forall>c\<in>set p. \<not> is_white_space c"
    using spec_pieces_sep_free[of p s] by (auto simp: is_separator_def)
  then show "trim p = p" by (rule trim_id)
qed

lemma spec_tokens_filter: "spec_tokens s = filter (\<lambda>p. p \<noteq> []) (spec_pieces s)"
  by (simp add: spec_tokens_def trim_spec_pieces)

lemma filter_dropWhile_sep:
  "(\<And>c. Q c \<Longrightarrow> is_separator c) \<Longrightarrow>
   filter (\<lambda>c. \<not> is_separator c) (dropWhile Q s) = filter (\<lambda>c. \<not> is_separator c) s"
  by (induction s) auto

lemma filter_drop_run:
  "filter (\<lambda>c. \<not> is_separator c) (drop_run s) = filter (\<lambda>c. \<not> is_separator c) s"
proof (cases s)
  case Nil
  then show ?thesis by (simp add: drop_run_def)
next
  case (Cons c cs)
  have w: "filter (\<lambda>c. \<not> is_separator c) (dropWhile is_white_space s) = filter (\<lambda>c. \<not> is_separator c) s"
    by (rule filter_dropWhile_sep) (simp add: is_separator_def)
  have k: "filter (\<lambda>c. \<not> is_separator c) (dropWhile is_comma s) = filter (\<lambda>c. \<not> is_separator c) s"
    by (rule filter_dropWhile_sep) (simp add: is_separator_def)
  show ?thesis
  proof (cases "is_white_space c")
    case True
    then have "drop_run s = dropWhile is_white_space s" by (simp add: drop_run_def Cons)
    then show ?thesis by (simp only: w)
  next
    case False
    then have "drop_run s = dropWhile is_comma s" by (simp add: drop_run_def Cons)
    then show ?thesis by (simp only: k)
  qed
qed

lemma concat_spec_pieces: "concat (spec_pieces s) = filter (\<lambda>c. \<not> is_separator c) s"
proof (induction s rule: spec_pieces.induct)
  case (1 s)
  let ?P = "\<lambda>c. \<not> is_separator c"
  have tk: "filter ?P (takeWhile ?P s) = takeWhile ?P s"
    by (simp add: filter_id_conv takeWhile_sep_free)
  have "filter ?P s = filter ?P (takeWhile ?P s @ dropWhile ?P s)"
    by (simp only: takeWhile_dropWhile_id)
  then have split: "filter ?P s = takeWhile ?P s @ filter ?P (dropWhile ?P s)"
    by (simp only: filter_append tk)
  show ?case
  proof (cases "dropWhile ?P s = []")
    case True
    have "concat (spec_pieces s) = takeWhile ?P s"
      unfolding spec_pieces_last[OF True] by simp
    also have "\<dots> = filter ?P s"
      unfolding split True by simp
    finally show ?thesis .
  next
    case False
    have "concat (spec_pieces s) = takeWhile ?P s @ concat (spec_pieces (drop_run (dropWhile ?P s)))"
      unfolding spec_pieces_more[OF False] by simp
    also have "concat (spec_pieces (drop_run (dropWhile ?P s))) = filter ?P (drop_run (dropWhile ?P s))"
      by (rule "1.IH"[OF refl refl False])
    also have "\<dots> = filter ?P (dropWhile ?P s)"
      by (rule filter_drop_run)
    finally show ?thesis by (simp only: split)
  qed
qed

lemma concat_filter_ne: "concat (filter (\<lambda>p. p \<noteq> []) ps) = concat ps"
  by (induction ps) auto

lemma concat_tokenize: "concat (tokenize s) = filter (\<lambda>c. \<not> is_separator c) s"
  by (simp add: tokenize_spec spec_tokens_filter concat_filter_ne concat_spec_pieces)

lemma token_props: "t \<in> set (tokenize s) \<Longrightarrow> t \<noteq> [] \<and> (\<forall>c\<in>set t. \<not> is_separator c)"
  using spec_pieces_sep_free[of t s] by (auto simp: tokenize_spec spec_tokens_filter)

lemma spec_pieces_sep_free_word: "\<forall>c\<in>set t. \<not> is_separator c \<Longrightarrow> spec_pieces t = [t]"
proof -
  assume a: "\<forall>c\<in>set t. \<not> is_separator c"
  then have "takeWhile (\<lambda>c. \<not> is_separator c) t = t" "dropWhile (\<lambda>c. \<not> is_separator c) t = []"
    by simp_all
  then show ?thesis by (subst spec_pieces.simps) (simp add: Let_def)
qed

lemma tokenize_token: "t \<noteq> [] \<Longrightarrow> \<forall>c\<in>set t. \<not> is_separator c \<Longrightarrow> tokenize t = [t]"
  by (simp add: tokenize_spec spec_tokens_filter spec_pieces_sep_free_word)

lemma tokenize_empty_iff: "tokenize s = [] \<longleftrightarrow> (\<forall>c\<in>set s. is_separator c)"
proof -
  have "tokenize s = [] \<longleftrightarrow> concat (tokenize s) = []"
    using token_props[of _ s] by auto
  also have "\<dots> \<longleftrightarrow> (\<forall>c\<in>set s. is_separator c)"
    by (simp add: concat_tokenize filter_empty_conv)
  finally show ?thesis .
qed

lemma space_sep: "is_white_space 0x20" "is_separator 0x20"
  by (simp_all add: is_white_space_def is_separator_def)

lemma spec_pieces_word_space:
  assumes t: "\<forall>c\<in>set t. \<not> is_separator c" and u: "u \<noteq> []" "\<not> is_separator (hd u)"
  shows "spec_pieces (t @ [0x20] @ u @ r) = t # spec_pieces (u @ r)"
proof -
  let ?P = "\<lambda>c. \<not> is_separator c"
  have tk: "takeWhile ?P (t @ [0x20] @ u @ r) = t"
    using t space_sep by simp
  have dk: "dropWhile ?P (t @ [0x20] @ u @ r) = [0x20] @ u @ r"
    using t space_sep by (simp add: dropWhile_append2)
  from u obtain c cs where uc: "u = c # cs" by (cases u) auto
  with u have "\<not> is_white_space c" by (simp add: is_separator_def)
  then have dr: "drop_run ([0x20] @ u @ r) = u @ r"
    using space_sep uc by (simp add: drop_run_def)
  show ?thesis
    by (subst spec_pieces.simps) (simp only: tk dk dr Let_def, simp)
qed

lemma tokenize_join:
  "\<forall>t\<in>set ts. t \<noteq> [] \<and> (\<forall>c\<in>set t. \<not> is_separator c) \<Longrightarrow> tokenize (join_space ts) = ts"
proof (induction ts rule: join_space.induct)
  case 1
  show ?case by (simp add: tokenize_spec spec_tokens_filter spec_pieces_Nil)
next
  case (2 t)
  then show ?case by (simp add: tokenize_token)
next
  case (3 t u ts)
  then have IH: "tokenize (join_space (u # ts)) = u # ts" by simp
  from 3 have t: "\<forall>c\<in>set t. \<not> is_separator c" "t \<noteq> []" and u: "u \<noteq> []" "\<not> is_separator (hd u)"
    by (auto simp: neq_Nil_conv)
  obtain r where jr: "join_space (u # ts) = u @ r"
    by (cases ts) auto
  have "spec_pieces (join_space (t # u # ts)) = t # spec_pieces (join_space (u # ts))"
    using spec_pieces_word_space[OF t(1) u, of r] by (simp add: jr)
  then show ?case
    using IH t(2) by (simp add: tokenize_spec spec_tokens_filter)
qed

lemma tokenize_idem: "tokenize (join_space (tokenize s)) = tokenize s"
  by (rule tokenize_join) (use token_props in blast)

lemma sample_tokens:
  "tokenize (str ''fever, cough   headache'') = [str ''fever'', str ''cough'', str ''headache'']"
  by (simp add: tokenize_def split_sep_def sep_match_def str_def is_white_space_def is_comma_def
        trim_def Boolean_str_def)

lemma spec_tokens_empty_iff: "spec_tokens s = [] \<longleftrightarrow> (\<forall>c\<in>set s. is_separator c)"
  using tokenize_empty_iff[of s] by (simp add: tokenize_spec)

lemma commas_are_separators: "\<forall>c\<in>set (str '',,,''). is_separator c"
  by (simp add: str_def is_separator_def is_comma_def)

text \<open>
  C3: the tokens computed by the handler are those of the reference definition (split on
  runs of whitespace or of commas, trim, drop the empty pieces). They are the
  non-separator characters of the input in their order, tokenising the tokens joined
  by spaces gives the same tokens again, and the input of the specification's example
  gives fever, cough, headache.
\<close>

theorem tokenize_reference:
  "tokenize s = spec_tokens s
   \<and> concat (tokenize s) = filter (\<lambda>c. \<not> is_separator c) s
   \<and> tokenize (join_space (tokenize s)) = tokenize s
   \<and> tokenize (str ''fever, cough   headache'') = [str ''fever'', str ''cough'', str ''headache'']"
  using tokenize_spec[of s] concat_tokenize[of s] tokenize_idem[of s] sample_tokens
  by (intro conjI)

theorem tokenize_reference_witness:
  "spec_tokens (str ''fever, cough   headache'') = [str ''fever'', str ''cough'', str ''headache'']
   \<and> filter (\<lambda>c. \<not> is_separator c) (str ''fever, cough   headache'') = str ''fevercoughheadache''
   \<and> tokenize (str ''fever cough headache'') = [str ''fever'', str ''cough'', str ''headache'']"
proof -
  let ?s = "str ''fever, cough   headache''"
  have j: "join_space [str ''fever'', str ''cough'', str ''headache''] = str ''fever cough headache''"
    by (simp add: str_def)
  have c: "concat [str ''fever'', str ''cough'', str ''headache''] = str ''fevercoughheadache''"
    by (simp add: str_def)
  note r = tokenize_reference[of ?s]
  from r have "spec_tokens ?s = tokenize ?s"
    by (elim conjE) (rule sym)
  moreover from r have "filter (\<lambda>c. \<not> is_separator c) ?s = concat (tokenize ?s)"
    by (elim conjE) (rule sym)
  moreover from r have "tokenize (join_space (tokenize ?s)) = tokenize ?s"
    by (elim conjE)
  ultimately show ?thesis
    by (simp only: sample_tokens j c simp_thms)
qed

section \<open>The runs of the handler\<close>

declare handleDiagnose.simps [simp del]

lemma local_empty:
  "tokenize s = [] \<Longrightarrow> handleDiagnose_local s net = (validation_failure, Fulfilled)"
  by (simp add: handleDiagnose_local_def tokenize_def validation_failure_def)

lemma env_empty:
  "tokenize s = [] \<Longrightarrow> handleDiagnose_env env s net =
     (validation_failure, Rejected (Exception ReferenceError (str ''s is not defined'')))"
  by (simp add: handleDiagnose_env_def tokenize_def validation_failure_def)

lemma local_nonempty:
  "tokenize s \<noteq> [] \<Longrightarrow> handleDiagnose_local s net =
     ([SetError (JStr []), SetResults (JArr []), SetLoading True,
       Fetch (diagnose_request (api_base Hardcoded) (tokenize s))] @ settled net @ [SetLoading False],
      Fulfilled)"
  by (simp add: handleDiagnose_local_def tokenize_def diagnose_request_def generic_failure_def Let_def
        split: net_outcome.splits sum.splits option.splits)

lemma env_nonempty:
  "tokenize s \<noteq> [] \<Longrightarrow> handleDiagnose_env env s net =
     ([SetError (JStr []), SetResults (JArr []), SetLoading True,
       Fetch (diagnose_request (api_base (Configurable env)) (tokenize s))] @ settled net @ [SetLoading False],
      Fulfilled)"
  by (cases env)
     (simp_all add: handleDiagnose_env_def tokenize_def diagnose_request_def generic_failure_def Let_def
        split: net_outcome.splits sum.splits option.splits)

lemma trace_empty:
  "tokenize s = [] \<Longrightarrow> fst (handleDiagnose var s net) = validation_failure"
  by (cases var) (simp_all add: handleDiagnose.simps local_empty env_empty)

lemma trace_nonempty:
  "tokenize s \<noteq> [] \<Longrightarrow> fst (handleDiagnose var s net) =
     [SetError (JStr []), SetResults (JArr []), SetLoading True,
      Fetch (diagnose_request (api_base var) (tokenize s))] @ settled net @ [SetLoading False]"
  by (cases var) (simp_all add: handleDiagnose.simps local_nonempty env_nonempty)


lemma run_effects_Nil: "run_effects [] v = v"
  by (simp add: run_effects_def)

lemma run_effects_Cons: "run_effects (e # es) v = run_effects es (apply_effect e v)"
  by (simp add: run_effects_def)

lemma run_effects_append: "run_effects (es @ fs) v = run_effects fs (run_effects es v)"
  by (simp add: run_effects_def)

lemma symptoms_apply_effect: "symptoms (apply_effect e v) = symptoms v"
  by (cases e) simp_all

lemma symptoms_run_effects: "symptoms (run_effects es v) = symptoms v"
  by (induction es arbitrary: v) (simp_all add: run_effects_Nil run_effects_Cons symptoms_apply_effect)

lemma apply_set_url: "apply_effect (set_url u e) v = apply_effect e v"
  by (cases e) simp_all

lemma run_effects_set_url: "run_effects (map (set_url u) es) v = run_effects es v"
  by (induction es arbitrary: v) (simp_all add: run_effects_Nil run_effects_Cons apply_set_url)

lemma set_url_generic_failure: "map (set_url u) (generic_failure err) = generic_failure err"
  by (simp add: generic_failure_def)

lemma set_url_settled: "map (set_url u) (settled net) = settled net"
  by (cases net) (simp_all add: set_url_generic_failure split: sum.splits option.splits)

lemma request_url:
  "(diagnose_request a ts)\<lparr>url := b @ str ''/api/diagnose''\<rparr> = diagnose_request b ts"
  by (simp add: diagnose_request_def)

lemma fetches_append: "fetches (es @ fs) = fetches es @ fetches fs"
  by (induction es rule: fetches.induct) simp_all

lemma logged_append: "logged (es @ fs) = logged es @ logged fs"
  by (induction es rule: logged.induct) simp_all

lemma fetches_generic_failure: "fetches (generic_failure err) = []"
  by (simp add: generic_failure_def)

lemma fetches_settled: "fetches (settled net) = []"
  by (cases net) (simp_all add: fetches_generic_failure split: sum.splits option.splits)

lemma loading_generic_failure: "loading (run_effects (generic_failure err) v) = loading v"
  by (simp add: generic_failure_def run_effects_Nil run_effects_Cons)

lemma loading_no_SetLoading:
  "\<forall>b. SetLoading b \<notin> set es \<Longrightarrow> loading (run_effects es v) = loading v"
proof (induction es arbitrary: v)
  case Nil
  show ?case by (simp add: run_effects_Nil)
next
  case (Cons e es)
  from Cons.prems have e: "\<forall>b. e \<noteq> SetLoading b" and es: "\<forall>b. SetLoading b \<notin> set es"
    by auto
  have "loading (apply_effect e v) = loading v"
  proof (cases e)
    case (SetLoading b)
    with e show ?thesis by blast
  qed simp_all
  with Cons.IH[OF es] show ?case
    by (simp add: run_effects_Cons)
qed

lemma settled_no_SetLoading: "SetLoading b \<notin> set (settled net)"
  by (cases net) (simp_all add: generic_failure_def split: sum.splits option.splits)

text \<open>
  The two copies settle their promise differently when validation fails: the copy with
  the configurable address reads the undeclared name \<^verbatim>\<open>s\<close> and rejects.
\<close>

lemma completion_of_run:
  "snd (handleDiagnose var s net) =
     (if tokenize s = [] \<and> var \<noteq> Hardcoded
      then Rejected (Exception ReferenceError (str ''s is not defined'')) else Fulfilled)"
  by (cases var; cases "tokenize s = []")
     (simp_all add: handleDiagnose.simps local_empty env_empty local_nonempty env_nonempty)

text \<open>
  What the two copies do share: for every input text and every outcome of the network, the
  effects of the copy with the configurable address are those of the copy with the
  hardcoded address with the request sent to the other base address; the requests of
  each copy go to its own base address followed by \<^verbatim>\<open>/api/diagnose\<close>; both log the same;
  and Submit leaves the same view state (error, results, loading) in both.
\<close>

lemma variants_equivalent:
  "fst (handleDiagnose_env env s net) =
     map (set_url (api_base (Configurable env) @ str ''/api/diagnose''))
       (fst (handleDiagnose_local s net))
   \<and> fst (handleDiagnose_local s net) =
     map (set_url (api_base Hardcoded @ str ''/api/diagnose'')) (fst (handleDiagnose_local s net))
   \<and> logged (fst (handleDiagnose_env env s net)) = logged (fst (handleDiagnose_local s net))
   \<and> Submit (Configurable env) net v = Submit Hardcoded net v"
proof (cases "tokenize s = []")
  case True
  have "Submit (Configurable env) net v = Submit Hardcoded net v"
  proof (cases "tokenize (symptoms v) = []")
    case True
    then show ?thesis by (simp add: Submit_def handleDiagnose.simps local_empty env_empty)
  next
    case False
    then show ?thesis
      by (simp add: Submit_def handleDiagnose.simps local_nonempty env_nonempty run_effects_Cons
            run_effects_append)
  qed
  with True show ?thesis
    by (simp add: local_empty env_empty validation_failure_def)
next
  case False
  have sub: "Submit (Configurable env) net v = Submit Hardcoded net v"
  proof (cases "tokenize (symptoms v) = []")
    case True
    then show ?thesis by (simp add: Submit_def handleDiagnose.simps local_empty env_empty)
  next
    case False
    then show ?thesis
      by (simp add: Submit_def handleDiagnose.simps local_nonempty env_nonempty run_effects_Cons
            run_effects_append)
  qed
  have lg: "logged (fst (handleDiagnose_env env s net)) = logged (fst (handleDiagnose_local s net))"
    using False by (simp add: local_nonempty env_nonempty logged_append)
  have e: "fst (handleDiagnose_env env s net) =
     map (set_url (api_base (Configurable env) @ str ''/api/diagnose''))
       (fst (handleDiagnose_local s net))"
    using False by (simp add: local_nonempty env_nonempty set_url_settled request_url)
  have l: "fst (handleDiagnose_local s net) =
     map (set_url (api_base Hardcoded @ str ''/api/diagnose'')) (fst (handleDiagnose_local s net))"
    using False by (simp add: local_nonempty set_url_settled request_url)
  from e l lg sub show ?thesis by (intro conjI)
qed

lemma sample_view_tokens:
  "tokenize (symptoms sample_view) = [str ''fever'', str ''cough'', str ''headache'']"
  by (simp add: sample_view_def sample_tokens)

lemma Submit_empty:
  "tokenize (symptoms v) = [] \<Longrightarrow> Submit var net v = run_effects validation_failure v"
  by (simp add: Submit_def trace_empty)

lemma Submit_nonempty:
  "tokenize (symptoms v) \<noteq> [] \<Longrightarrow>
   Submit var net v =
     (run_effects (settled net) (v\<lparr>error := JStr [], results := JArr [], loading := True\<rparr>))
       \<lparr>loading := False\<rparr>"
  by (simp add: Submit_def trace_nonempty run_effects_Cons run_effects_Nil run_effects_append)

lemma variants_equivalent_example:
  "fetches (fst (handleDiagnose_env None (str ''fever, cough   headache'') (FetchResolved response_500)))
     = [diagnose_request (str ''https://doc-zaddy.onrender.com'') [str ''fever'', str ''cough'', str ''headache'']]
   \<and> fetches (fst (handleDiagnose_local (str ''fever, cough   headache'') (FetchResolved response_500)))
     = [diagnose_request (str ''http://127.0.0.1:8001'') [str ''fever'', str ''cough'', str ''headache'']]
   \<and> Submit (Configurable None) (FetchResolved response_500) sample_view
     = Submit Hardcoded (FetchResolved response_500) sample_view"
proof -
  let ?s = "str ''fever, cough   headache''"
  have ne: "tokenize ?s \<noteq> []"
    by (simp add: sample_tokens)
  have l: "fetches (fst (handleDiagnose_local ?s (FetchResolved response_500)))
     = [diagnose_request (str ''http://127.0.0.1:8001'') [str ''fever'', str ''cough'', str ''headache'']]"
    by (simp add: local_nonempty[OF ne] sample_tokens fetches_append fetches_settled
          del: settled.simps)
  have e: "fetches (fst (handleDiagnose_env None ?s (FetchResolved response_500)))
     = [diagnose_request (str ''https://doc-zaddy.onrender.com'') [str ''fever'', str ''cough'', str ''headache'']]"
    by (simp add: env_nonempty[OF ne] sample_tokens fetches_append fetches_settled
          del: settled.simps)
  from variants_equivalent[of None ?s "FetchResolved response_500" sample_view]
  have "Submit (Configurable None) (FetchResolved response_500) sample_view
     = Submit Hardcoded (FetchResolved response_500) sample_view"
    by (elim conjE)
  with l e show ?thesis by (intro conjI)
qed

text \<open>
  C1: the two copies are not functionally identical. On every input without a token the
  copy with the hardcoded address (\<^verbatim>\<open>part_000\<close>) sets the validation message and returns,
  so its promise is fulfilled; the copy with the configurable address (\<^verbatim>\<open>App.js\<close>) sets
  the same message and then reads the stray, undeclared name \<^verbatim>\<open>s\<close> left after the
  statement, which throws a ReferenceError outside the \<^verbatim>\<open>try\<close> block, so its promise is
  rejected. The runs differ beyond the base address.
\<close>

theorem variants_differ_on_validation:
  assumes "tokenize s = []"
  shows "handleDiagnose_local s net =
           ([SetError (JStr []), SetResults (JArr []),
             SetError (JStr (str ''Please enter at least one symptom.''))], Fulfilled)
         \<and> handleDiagnose_env env s net =
           ([SetError (JStr []), SetResults (JArr []),
             SetError (JStr (str ''Please enter at least one symptom.''))],
            Rejected (Exception ReferenceError (str ''s is not defined'')))
         \<and> handleDiagnose_env env s net \<noteq> handleDiagnose_local s net"
  using assms by (simp add: local_empty env_empty validation_failure_def)

theorem variants_differ_on_validation_witness:
  "tokenize (str '''') = []
   \<and> snd (handleDiagnose_local (str '''') (FetchRejected (Exception TypeError (str ''Failed to fetch''))))
       = Fulfilled
   \<and> snd (handleDiagnose_env None (str '''') (FetchRejected (Exception TypeError (str ''Failed to fetch''))))
       = Rejected (Exception ReferenceError (str ''s is not defined''))
   \<and> handleDiagnose_env None (str '''') (FetchRejected (Exception TypeError (str ''Failed to fetch'')))
       \<noteq> handleDiagnose_local (str '''') (FetchRejected (Exception TypeError (str ''Failed to fetch'')))"
proof -
  have t: "tokenize (str '''') = []"
    by (simp add: tokenize_def split_sep_def str_def trim_def Boolean_str_def)
  from variants_differ_on_validation[OF t, of "FetchRejected (Exception TypeError (str ''Failed to fetch''))" None] t
  show ?thesis
    by simp
qed

text \<open>
  C2: when the input has no token (the reference tokenisation gives none, that is, every
  character is whitespace or a comma), a run makes exactly three setter calls, the last
  one setting the error to the validation message, and sends no request. After Submit
  the error is that message, the result set is empty and loading is untouched. The run
  ends at once: the promise of the copy with the hardcoded address is fulfilled, the
  one of the other copy is rejected by the stray name after the message.
\<close>

theorem validation_short_circuit:
  assumes "spec_tokens (symptoms v) = []"
  shows "fst (handleDiagnose var (symptoms v) net) =
           [SetError (JStr []), SetResults (JArr []),
            SetError (JStr (str ''Please enter at least one symptom.''))]
         \<and> fetches (fst (handleDiagnose var (symptoms v) net)) = []
         \<and> error (Submit var net v) = JStr (str ''Please enter at least one symptom.'')
         \<and> results (Submit var net v) = JArr []
         \<and> loading (Submit var net v) = loading v
         \<and> snd (handleDiagnose var (symptoms v) net) =
             (case var of
                Hardcoded \<Rightarrow> Fulfilled
              | Configurable env \<Rightarrow> Rejected (Exception ReferenceError (str ''s is not defined'')))"
proof -
  from assms have t: "tokenize (symptoms v) = []"
    by (simp add: tokenize_spec)
  have tr: "fst (handleDiagnose var (symptoms v) net) = validation_failure"
    using t by (rule trace_empty)
  have c: "snd (handleDiagnose var (symptoms v) net) =
             (case var of
                Hardcoded \<Rightarrow> Fulfilled
              | Configurable env \<Rightarrow> Rejected (Exception ReferenceError (str ''s is not defined'')))"
    using t by (cases var) (simp_all add: handleDiagnose.simps local_empty env_empty)
  have s: "Submit var net v = run_effects validation_failure v"
    using t by (rule Submit_empty)
  show ?thesis
    unfolding tr s c
    by (simp add: validation_failure_def run_effects_Cons run_effects_Nil)
qed

theorem validation_short_circuit_witness:
  "spec_tokens (str '',,,'') = []
   \<and> error (Submit (Configurable None) (FetchResolved response_500) (sample_view\<lparr>symptoms := str '',,,''\<rparr>))
       = JStr (str ''Please enter at least one symptom.'')
   \<and> fetches (fst (handleDiagnose (Configurable None) (str '',,,'') (FetchResolved response_500))) = []
   \<and> snd (handleDiagnose (Configurable None) (str '',,,'') (FetchResolved response_500))
       = Rejected (Exception ReferenceError (str ''s is not defined''))"
proof -
  have h: "spec_tokens (symptoms (sample_view\<lparr>symptoms := str '',,,''\<rparr>)) = []"
    using commas_are_separators by (simp add: spec_tokens_empty_iff)
  from validation_short_circuit[OF h, of "Configurable None" "FetchResolved response_500"] h
  show ?thesis by simp
qed

lemma results_is_not_message: "str ''message'' \<noteq> str ''results''"
  by (simp add: str_def)

lemma map_of_without:
  "map_of (filter (\<lambda>kv. fst kv \<noteq> k) kvs) k' = (if k' = k then None else map_of kvs k')"
  by (induction kvs) auto

text \<open>
  C4, as the code has it: the handler tests \<^verbatim>\<open>data.results\<close> for truthiness. For a
  success-status response whose body parses to an object with a \<^verbatim>\<open>results\<close> field: when
  the field is truthy (anything but null, false, 0, NaN and the empty string), Submit stores
  that value as the result set unchanged, leaves the error empty and ends with loading
  false; when the field is falsy, Submit does what it does for the same object without the
  field: the result set is empty and the error is the \<^verbatim>\<open>message\<close> field if truthy, else the
  fallback.
\<close>

theorem results_field_by_truthiness:
  assumes "tokenize (symptoms v) \<noteq> []"
    and "ok resp"
    and "body_json resp = Inr (JObj kvs)"
    and "map_of kvs (str ''results'') = Some r"
  shows "(ToBoolean r \<longrightarrow>
            results (Submit var (FetchResolved resp) v) = r
            \<and> error (Submit var (FetchResolved resp) v) = JStr []
            \<and> \<not> loading (Submit var (FetchResolved resp) v))
         \<and> (\<not> ToBoolean r \<longrightarrow>
            map_of (filter (\<lambda>kv. fst kv \<noteq> str ''results'') kvs) (str ''results'') = None
            \<and> Submit var (FetchResolved resp) v
                = Submit var (FetchResolved
                    (resp\<lparr>body_json := Inr (JObj (filter (\<lambda>kv. fst kv \<noteq> str ''results'') kvs))\<rparr>)) v
            \<and> results (Submit var (FetchResolved resp) v) = JArr []
            \<and> error (Submit var (FetchResolved resp) v) =
                (case map_of kvs (str ''message'') of
                   None \<Rightarrow> JStr (str ''No results returned'')
                 | Some m \<Rightarrow> if ToBoolean m then m else JStr (str ''No results returned''))
            \<and> \<not> loading (Submit var (FetchResolved resp) v))"
proof (intro conjI impI)
  assume t: "ToBoolean r"
  have "settled (FetchResolved resp) = [SetResults r]"
    using assms(2-4) t by (simp add: when_truthy_def)
  then show "results (Submit var (FetchResolved resp) v) = r"
    and "error (Submit var (FetchResolved resp) v) = JStr []"
    and "\<not> loading (Submit var (FetchResolved resp) v)"
    by (simp_all add: Submit_nonempty[OF assms(1)] run_effects_Cons run_effects_Nil)
next
  assume f: "\<not> ToBoolean r"
  let ?rest = "filter (\<lambda>kv. fst kv \<noteq> str ''results'') kvs"
  let ?resp' = "resp\<lparr>body_json := Inr (JObj ?rest)\<rparr>"
  let ?e = "SetError (js_or (map_of kvs (str ''message'')) (JStr (str ''No results returned'')))"
  show none: "map_of ?rest (str ''results'') = None"
    by (simp add: map_of_without)
  have m: "map_of ?rest (str ''message'') = map_of kvs (str ''message'')"
    using results_is_not_message by (simp add: map_of_without)
  have s: "settled (FetchResolved resp) = [?e]"
    using assms(2-4) f by (simp add: when_truthy_def)
  have s': "settled (FetchResolved ?resp') = [?e]"
    using assms(2) none m by (simp add: when_truthy_def)
  show "Submit var (FetchResolved resp) v = Submit var (FetchResolved ?resp') v"
    by (simp only: Submit_nonempty[OF assms(1)] s s')
  show "results (Submit var (FetchResolved resp) v) = JArr []"
    and "\<not> loading (Submit var (FetchResolved resp) v)"
    by (simp_all add: Submit_nonempty[OF assms(1)] s run_effects_Cons run_effects_Nil
          del: settled.simps)
  show "error (Submit var (FetchResolved resp) v) =
          (case map_of kvs (str ''message'') of
             None \<Rightarrow> JStr (str ''No results returned'')
           | Some m \<Rightarrow> if ToBoolean m then m else JStr (str ''No results returned''))"
    by (simp add: Submit_nonempty[OF assms(1)] s run_effects_Cons run_effects_Nil js_or_def
          when_truthy_def del: settled.simps split: option.splits)
qed

theorem results_field_by_truthiness_witness:
  "results (Submit Hardcoded (FetchResolved (response_ok (JObj [(str ''results'', common_cold)]))) sample_view)
     = common_cold
   \<and> error (Submit Hardcoded (FetchResolved (response_ok (JObj [(str ''results'', common_cold)]))) sample_view)
     = JStr []
   \<and> \<not> loading (Submit Hardcoded (FetchResolved (response_ok (JObj [(str ''results'', common_cold)]))) sample_view)
   \<and> results (Submit Hardcoded (FetchResolved (response_ok
         (JObj [(str ''results'', JNum (Finite False 0 0)), (str ''message'', JStr (str ''no match''))])))
         sample_view) = JArr []
   \<and> error (Submit Hardcoded (FetchResolved (response_ok
         (JObj [(str ''results'', JNum (Finite False 0 0)), (str ''message'', JStr (str ''no match''))])))
         sample_view) = JStr (str ''no match'')
   \<and> Submit Hardcoded (FetchResolved (response_ok
         (JObj [(str ''results'', JNum (Finite False 0 0)), (str ''message'', JStr (str ''no match''))])))
         sample_view
       = Submit Hardcoded (FetchResolved (response_ok
         (JObj [(str ''message'', JStr (str ''no match''))]))) sample_view"
proof -
  let ?t = "[(str ''results'', common_cold)]"
  let ?f = "[(str ''results'', JNum (Finite False 0 0)), (str ''message'', JStr (str ''no match''))]"
  have 1: "tokenize (symptoms sample_view) \<noteq> []"
    by (simp add: sample_view_tokens)
  have t2: "ok (response_ok (JObj ?t))" and f2: "ok (response_ok (JObj ?f))"
    by (simp_all add: response_ok_def)
  have t3: "body_json (response_ok (JObj ?t)) = Inr (JObj ?t)"
    and f3: "body_json (response_ok (JObj ?f)) = Inr (JObj ?f)"
    by (simp_all add: response_ok_def)
  have t4: "map_of ?t (str ''results'') = Some common_cold"
    and f4: "map_of ?f (str ''results'') = Some (JNum (Finite False 0 0))"
    by simp_all
  have t5: "ToBoolean common_cold"
    by (simp add: common_cold_def)
  have f5: "\<not> ToBoolean (JNum (Finite False 0 0))"
    by simp
  have msg: "map_of ?f (str ''message'') = Some (JStr (str ''no match''))"
    using results_is_not_message by simp
  have ne: "str ''no match'' \<noteq> []"
    by (simp add: str_def)
  have rest: "filter (\<lambda>kv. fst kv \<noteq> str ''results'') ?f = [(str ''message'', JStr (str ''no match''))]"
    using results_is_not_message by simp
  have upd: "(response_ok (JObj ?f))\<lparr>body_json := Inr (JObj [(str ''message'', JStr (str ''no match''))])\<rparr>
               = response_ok (JObj [(str ''message'', JStr (str ''no match''))])"
    by (simp add: response_ok_def)
  let ?rf = "FetchResolved (response_ok (JObj ?f))"
  from results_field_by_truthiness[OF 1 t2 t3 t4, of Hardcoded] t5
  have T: "results (Submit Hardcoded (FetchResolved (response_ok (JObj ?t))) sample_view) = common_cold
     \<and> error (Submit Hardcoded (FetchResolved (response_ok (JObj ?t))) sample_view) = JStr []
     \<and> \<not> loading (Submit Hardcoded (FetchResolved (response_ok (JObj ?t))) sample_view)"
    by blast
  from results_field_by_truthiness[OF 1 f2 f3 f4, of Hardcoded] f5
  have F: "Submit Hardcoded ?rf sample_view
       = Submit Hardcoded (FetchResolved ((response_ok (JObj ?f))
           \<lparr>body_json := Inr (JObj (filter (\<lambda>kv. fst kv \<noteq> str ''results'') ?f))\<rparr>)) sample_view"
    and R: "results (Submit Hardcoded ?rf sample_view) = JArr []"
    and E: "error (Submit Hardcoded ?rf sample_view) =
              (case map_of ?f (str ''message'') of
                 None \<Rightarrow> JStr (str ''No results returned'')
               | Some m \<Rightarrow> if ToBoolean m then m else JStr (str ''No results returned''))"
    by blast+
  from E have E': "error (Submit Hardcoded ?rf sample_view) = JStr (str ''no match'')"
    unfolding msg using ne by simp
  from F have F': "Submit Hardcoded ?rf sample_view
       = Submit Hardcoded (FetchResolved (response_ok (JObj [(str ''message'', JStr (str ''no match''))])))
           sample_view"
    unfolding rest upd .
  from T R E' F' show ?thesis
    by (intro conjI) (elim conjE, assumption)+
qed

text \<open>
  The sentence of the specification fails for a \<^verbatim>\<open>results\<close> field that is present and falsy: for the body
  \<^verbatim>\<open>{"results": null}\<close> the result set is not replaced by the field's value and the error is
  not left empty.
\<close>

theorem null_results_counterexample:
  "map_of [(str ''results'', JNull)] (str ''results'') = Some JNull
   \<and> results (Submit Hardcoded (FetchResolved (response_ok (JObj [(str ''results'', JNull)]))) sample_view)
       = JArr []
   \<and> JArr [] \<noteq> JNull
   \<and> error (Submit Hardcoded (FetchResolved (response_ok (JObj [(str ''results'', JNull)]))) sample_view)
       = JStr (str ''No results returned'')
   \<and> JStr (str ''No results returned'') \<noteq> JStr []"
  by (simp add: Submit_nonempty sample_view_tokens response_ok_def when_truthy_def js_or_def
        run_effects_Cons run_effects_Nil)
     (simp add: str_def)

text \<open>
  C5, as the code has it: the error is \<^verbatim>\<open>data.message || "No results returned"\<close>. For a
  success-status response whose body parses to an object without a \<^verbatim>\<open>results\<close> field,
  Submit sets the error to the \<^verbatim>\<open>message\<close> field when that field is present and truthy,
  and to the fallback otherwise; the result set is empty and loading is false.
\<close>

theorem message_or_fallback:
  assumes "tokenize (symptoms v) \<noteq> []"
    and "ok resp"
    and "body_json resp = Inr (JObj kvs)"
    and "map_of kvs (str ''results'') = None"
  shows "error (Submit var (FetchResolved resp) v) =
           (case map_of kvs (str ''message'') of
              None \<Rightarrow> JStr (str ''No results returned'')
            | Some m \<Rightarrow> if ToBoolean m then m else JStr (str ''No results returned''))
         \<and> results (Submit var (FetchResolved resp) v) = JArr []
         \<and> \<not> loading (Submit var (FetchResolved resp) v)"
proof -
  have "settled (FetchResolved resp) =
          [SetError (js_or (map_of kvs (str ''message'')) (JStr (str ''No results returned'')))]"
    using assms(2-4) by (simp add: when_truthy_def)
  then show ?thesis
    by (simp add: Submit_nonempty[OF assms(1)] run_effects_Cons run_effects_Nil js_or_def
          when_truthy_def split: option.splits)
qed

theorem message_or_fallback_witness:
  "error (Submit Hardcoded
       (FetchResolved (response_ok (JObj [(str ''message'', JStr (str ''no match''))]))) sample_view)
     = JStr (str ''no match'')
   \<and> results (Submit Hardcoded
       (FetchResolved (response_ok (JObj [(str ''message'', JStr (str ''no match''))]))) sample_view)
     = JArr []"
proof -
  let ?kvs = "[(str ''message'', JStr (str ''no match''))]"
  have 1: "tokenize (symptoms sample_view) \<noteq> []"
    by (simp add: sample_view_tokens)
  have 2: "ok (response_ok (JObj ?kvs))"
    by (simp add: response_ok_def)
  have 3: "body_json (response_ok (JObj ?kvs)) = Inr (JObj ?kvs)"
    by (simp add: response_ok_def)
  have 4: "map_of ?kvs (str ''results'') = None"
    using results_is_not_message by simp
  have 5: "str ''no match'' \<noteq> []"
    by (simp add: str_def)
  from message_or_fallback[OF 1 2 3 4, of Hardcoded] 5 show ?thesis
    by simp
qed

text \<open>
  The sentence of the specification fails for a \<^verbatim>\<open>message\<close> field that is present and falsy: for the body
  \<^verbatim>\<open>{"message": ""}\<close> the error is the fallback, not the field's value.
\<close>

theorem empty_message_counterexample:
  "map_of [(str ''message'', JStr [])] (str ''results'') = None
   \<and> map_of [(str ''message'', JStr [])] (str ''message'') = Some (JStr [])
   \<and> error (Submit Hardcoded (FetchResolved (response_ok (JObj [(str ''message'', JStr [])]))) sample_view)
       = JStr (str ''No results returned'')
   \<and> JStr (str ''No results returned'') \<noteq> JStr []"
  using results_is_not_message
  by (simp add: Submit_nonempty sample_view_tokens response_ok_def when_truthy_def js_or_def
        run_effects_Cons run_effects_Nil)
     (simp add: str_def)

text \<open>
  C6: when the request fails by an exception (\<^verbatim>\<open>fetch\<close> rejects; or the response has a
  non-success status, where the exception carries the status code and the body text, or
  the status text when the body cannot be read; or \<^verbatim>\<open>json()\<close> rejects; or the body parses
  to null, so that reading \<^verbatim>\<open>data.results\<close> throws), Submit sets the error to the fixed
  generic message, whatever the cause. The cause is logged once with \<^verbatim>\<open>console.error\<close>
  and is not shown; the result set is empty and loading is false. These are all the
  exceptions of the \<^verbatim>\<open>try\<close> block.
\<close>

theorem thrown_failure_generic_message:
  assumes "tokenize (symptoms v) \<noteq> []"
    and "net = FetchRejected cause
         \<or> (net = FetchResolved resp \<and> \<not> ok resp
             \<and> cause = Exception Error (str ''API error '' @ decimal (status resp) @ str '': ''
                 @ (case body_text resp of Some t \<Rightarrow> t | None \<Rightarrow> statusText resp)))
         \<or> (net = FetchResolved resp \<and> ok resp \<and> body_json resp = Inl cause)
         \<or> (net = FetchResolved resp \<and> ok resp \<and> body_json resp = Inr JNull
             \<and> cause = null_property_error (str ''results''))"
  shows "error (Submit var net v) = JStr (str ''Failed to fetch diagnosis. Please check API connection.'')
         \<and> results (Submit var net v) = JArr []
         \<and> \<not> loading (Submit var net v)
         \<and> logged (fst (handleDiagnose var (symptoms v) net)) = [(str ''Diagnosis request failed:'', cause)]"
proof -
  from assms(2) have st: "settled net = generic_failure cause"
    by auto
  have lg: "logged (fst (handleDiagnose var (symptoms v) net)) = [(str ''Diagnosis request failed:'', cause)]"
    by (simp add: trace_nonempty[OF assms(1)] logged_append st generic_failure_def
          del: settled.simps)
  from st lg show ?thesis
    by (simp add: Submit_nonempty[OF assms(1)] generic_failure_def run_effects_Cons run_effects_Nil
          del: settled.simps)
qed

theorem thrown_failure_generic_message_witness:
  "error (Submit Hardcoded (FetchResolved response_500) sample_view)
     = JStr (str ''Failed to fetch diagnosis. Please check API connection.'')
   \<and> results (Submit Hardcoded (FetchResolved response_500) sample_view) = JArr []
   \<and> \<not> loading (Submit Hardcoded (FetchResolved response_500) sample_view)
   \<and> logged (fst (handleDiagnose Hardcoded (symptoms sample_view) (FetchResolved response_500)))
     = [(str ''Diagnosis request failed:'', Exception Error (str ''API error 500: boom''))]"
proof -
  have 1: "tokenize (symptoms sample_view) \<noteq> []"
    by (simp add: sample_view_tokens)
  have d: "decimal 500 = str ''500''"
    by (simp add: decimal.simps str_def)
  have c: "Exception Error (str ''API error '' @ decimal (status response_500) @ str '': ''
             @ (case body_text response_500 of Some t \<Rightarrow> t | None \<Rightarrow> statusText response_500))
           = Exception Error (str ''API error 500: boom'')"
    by (simp add: response_500_def d) (simp add: str_def)
  have 2: "FetchResolved response_500 = FetchRejected (Exception Error (str ''API error 500: boom''))
         \<or> (FetchResolved response_500 = FetchResolved response_500 \<and> \<not> ok response_500
             \<and> Exception Error (str ''API error 500: boom'')
                = Exception Error (str ''API error '' @ decimal (status response_500) @ str '': ''
                 @ (case body_text response_500 of Some t \<Rightarrow> t | None \<Rightarrow> statusText response_500)))
         \<or> (FetchResolved response_500 = FetchResolved response_500 \<and> ok response_500
             \<and> body_json response_500 = Inl (Exception Error (str ''API error 500: boom'')))
         \<or> (FetchResolved response_500 = FetchResolved response_500 \<and> ok response_500
             \<and> body_json response_500 = Inr JNull
             \<and> Exception Error (str ''API error 500: boom'') = null_property_error (str ''results''))"
    unfolding c by (simp add: response_500_def)
  from thrown_failure_generic_message[OF 1 2] show ?thesis .
qed

lemma take_before_last:
  "length pre \<le> n \<Longrightarrow> n < length pre + length mid + 1 \<Longrightarrow>
   take n (pre @ mid @ [x]) = pre @ take (n - length pre) mid"
  by simp

text \<open>
  C7: in a run that passes validation the request is the fourth effect, right after
  loading is set to true; loading is true at every point of the run from there up to the
  last effect, which sets it back to false, whatever the outcome of the call was. After
  Submit loading is false.
\<close>

theorem loading_during_call:
  assumes "tokenize (symptoms v) \<noteq> []"
  shows "fst (handleDiagnose var (symptoms v) net) ! 3
           = Fetch (diagnose_request (api_base var) (tokenize (symptoms v)))
         \<and> (\<forall>n. 3 \<le> n \<and> n < length (fst (handleDiagnose var (symptoms v) net)) \<longrightarrow>
               loading (run_effects (take n (fst (handleDiagnose var (symptoms v) net))) v))
         \<and> last (fst (handleDiagnose var (symptoms v) net)) = SetLoading False
         \<and> \<not> loading (Submit var net v)"
proof -
  let ?req = "Fetch (diagnose_request (api_base var) (tokenize (symptoms v)))"
  let ?pre = "[SetError (JStr []), SetResults (JArr []), SetLoading True]"
  let ?trace = "fst (handleDiagnose var (symptoms v) net)"
  have tr: "?trace = ?pre @ (?req # settled net) @ [SetLoading False]"
    by (simp add: trace_nonempty[OF assms])
  have during: "loading (run_effects (take n ?trace) v)" if n: "3 \<le> n" "n < length ?trace" for n
  proof -
    from n have "length ?pre \<le> n" "n < length ?pre + length (?req # settled net) + 1"
      unfolding tr by simp_all
    then have tk: "take n ?trace = ?pre @ take (n - length ?pre) (?req # settled net)"
      unfolding tr by (rule take_before_last)
    have "\<forall>b. SetLoading b \<notin> set (take (n - length ?pre) (?req # settled net))"
      using settled_no_SetLoading[of _ net] by (auto dest!: in_set_takeD)
    then show ?thesis
      unfolding tk
      by (simp add: run_effects_append loading_no_SetLoading run_effects_Cons run_effects_Nil
            del: settled.simps)
  qed
  have "?trace ! 3 = ?req"
    unfolding tr by simp
  moreover have "last ?trace = SetLoading False"
    unfolding tr by simp
  moreover have "\<not> loading (Submit var net v)"
    by (simp add: Submit_nonempty[OF assms])
  ultimately show ?thesis
    using during by blast
qed

theorem loading_during_call_witness:
  "fst (handleDiagnose Hardcoded (symptoms sample_view) (FetchResolved response_500)) ! 3
     = Fetch (diagnose_request (str ''http://127.0.0.1:8001'') [str ''fever'', str ''cough'', str ''headache''])
   \<and> loading (run_effects (take 5
        (fst (handleDiagnose Hardcoded (symptoms sample_view) (FetchResolved response_500)))) sample_view)
   \<and> \<not> loading (Submit Hardcoded (FetchResolved response_500) sample_view)"
proof -
  have 1: "tokenize (symptoms sample_view) \<noteq> []"
    by (simp add: sample_view_tokens)
  have len: "length (fst (handleDiagnose Hardcoded (symptoms sample_view) (FetchResolved response_500))) = 7"
    by (simp add: trace_nonempty[OF 1] response_500_def generic_failure_def)
  from loading_during_call[OF 1, of Hardcoded "FetchResolved response_500"] len
  show ?thesis
    by (simp add: sample_view_tokens)
qed

text \<open>
  C8, as the code has it: a run sends one request when the token list is not empty and
  none when it is empty. The request is a POST to the base address followed by
  \<^verbatim>\<open>/api/diagnose\<close>, with the header Content-Type: application/json and the body
  \<^verbatim>\<open>JSON.stringify({ symptoms: tokens })\<close>; no token is the empty string.
\<close>

theorem one_request_when_valid:
  "fetches (fst (handleDiagnose var s net)) =
     (if tokenize s = [] then []
      else [\<lparr>url = api_base var @ str ''/api/diagnose'',
             http_method = str ''POST'',
             headers = [(str ''Content-Type'', str ''application/json'')],
             body = JSON_stringify (JObj [(str ''symptoms'', JArr (map JStr (tokenize s)))])\<rparr>])
   \<and> [] \<notin> set (tokenize s)"
proof -
  have "[] \<notin> set (tokenize s)"
    using token_props[of "[]" s] by blast
  moreover have "fetches (fst (handleDiagnose var s net)) = []" if "tokenize s = []"
    using that by (simp add: trace_empty validation_failure_def)
  moreover have "fetches (fst (handleDiagnose var s net)) = [diagnose_request (api_base var) (tokenize s)]"
    if "tokenize s \<noteq> []"
    using that by (simp add: trace_nonempty fetches_append fetches_settled del: settled.simps)
  ultimately show ?thesis
    by (simp add: diagnose_request_def)
qed

theorem one_request_when_valid_witness:
  "fetches (fst (handleDiagnose (Configurable None) (str ''fever, cough   headache'') (FetchResolved response_500)))
     = [\<lparr>url = str ''https://doc-zaddy.onrender.com/api/diagnose'',
          http_method = str ''POST'',
          headers = [(str ''Content-Type'', str ''application/json'')],
          body = JSON_stringify
            (JObj [(str ''symptoms'', JArr [JStr (str ''fever''), JStr (str ''cough''), JStr (str ''headache'')])])\<rparr>]"
proof -
  have u: "str ''https://doc-zaddy.onrender.com'' @ str ''/api/diagnose''
             = str ''https://doc-zaddy.onrender.com/api/diagnose''"
    by (simp add: str_def)
  from one_request_when_valid[of "Configurable None" "str ''fever, cough   headache''"
      "FetchResolved response_500"]
  show ?thesis
    by (simp add: sample_tokens u)
qed

text \<open>
  The sentence of the specification fails for an input without tokens, such as the empty text the
  component starts with: such a run sends no request.
\<close>

theorem empty_input_no_request:
  "tokenize (str '''') = []
   \<and> fetches (fst (handleDiagnose Hardcoded (str '''') (FetchResolved (response_ok (JObj []))))) = []
   \<and> fetches (fst (handleDiagnose (Configurable None) (str '''') (FetchResolved (response_ok (JObj []))))) = []"
proof -
  have t: "tokenize (str '''') = []"
    by (simp add: tokenize_def split_sep_def str_def trim_def Boolean_str_def)
  then show ?thesis
    by (simp add: trace_empty validation_failure_def)
qed

text \<open>
  C10: no effect of a run writes the \<^verbatim>\<open>symptoms\<close> cell. At every point of a run, and after
  Submit, the stored input text is the one Submit started with, for every input and
  every outcome of the network.
\<close>

theorem symptoms_unchanged:
  "symptoms (Submit var net v) = symptoms v
   \<and> symptoms (run_effects (take n (fst (handleDiagnose var (symptoms v) net))) v) = symptoms v"
  by (simp add: Submit_def symptoms_run_effects)

theorem symptoms_unchanged_witness:
  "symptoms (Submit (Configurable None) (FetchResolved response_500) sample_view)
     = str ''fever, cough   headache''
   \<and> symptoms (Submit Hardcoded (FetchRejected (Exception TypeError (str ''Failed to fetch'')))
        (sample_view\<lparr>symptoms := str '',,,''\<rparr>)) = str '',,,''"
  using symptoms_unchanged[of "Configurable None" "FetchResolved response_500" sample_view 0]
    symptoms_unchanged[of Hardcoded "FetchRejected (Exception TypeError (str ''Failed to fetch''))"
      "sample_view\<lparr>symptoms := str '',,,''\<rparr>" 0]
  by (simp add: sample_view_def)

section \<open>The percentage shown\<close>

lemma bit_length_0: "bit_length 0 = 0"
  by (simp add: bit_length.simps)

lemma bit_length_pos: "n \<noteq> 0 \<Longrightarrow> bit_length n = Suc (bit_length (n div 2))"
  by (subst bit_length.simps) simp

lemma bit_length_upper: "n < 2 ^ bit_length n"
proof (induction n rule: bit_length.induct)
  case (1 n)
  show ?case
  proof (cases "n = 0")
    case True
    then show ?thesis by (simp add: bit_length_0)
  next
    case False
    from 1[OF False] have "n div 2 < 2 ^ bit_length (n div 2)" .
    then have "n < 2 * 2 ^ bit_length (n div 2)" by linarith
    with False show ?thesis by (simp add: bit_length_pos)
  qed
qed

lemma bit_length_lower: "n \<noteq> 0 \<Longrightarrow> 2 ^ (bit_length n - 1) \<le> n"
proof (induction n rule: bit_length.induct)
  case (1 n)
  then have n: "n \<noteq> 0" by simp
  show ?case
  proof (cases "n div 2 = 0")
    case True
    with n show ?thesis by (simp add: bit_length_pos bit_length_0)
  next
    case False
    from "1.IH"[OF n False] have "2 ^ (bit_length (n div 2) - 1) \<le> n div 2" .
    moreover from False have "bit_length (n div 2) = Suc (bit_length (n div 2) - 1)"
      by (simp add: bit_length_pos)
    ultimately have "2 ^ bit_length (n div 2) \<le> 2 * (n div 2)"
      by (metis mult_le_mono2 power_Suc)
    then have "2 ^ bit_length (n div 2) \<le> n" by linarith
    with n show ?thesis by (simp add: bit_length_pos)
  qed
qed

lemma bit_length_le: "n < 2 ^ j \<Longrightarrow> bit_length n \<le> j"
proof (cases "n = 0")
  case True
  then show ?thesis by (simp add: bit_length_0)
next
  case False
  assume "n < 2 ^ j"
  with bit_length_lower[OF False] have "(2::nat) ^ (bit_length n - 1) < 2 ^ j" by linarith
  then have "bit_length n - 1 < j" by (simp add: power_strict_increasing_iff)
  then show ?thesis by linarith
qed

lemma round_to_nearest:
  fixes M K :: nat
  assumes K: "0 < K"
    and q': "q' = (if 2 ^ (K - 1) < M mod 2 ^ K \<or> (M mod 2 ^ K = 2 ^ (K - 1) \<and> odd (M div 2 ^ K))
                   then M div 2 ^ K + 1 else M div 2 ^ K)"
  shows "2 * \<bar>int q' * 2 ^ K - int M\<bar> \<le> 2 ^ K"
proof -
  define q r where "q = M div 2 ^ K" and "r = M mod 2 ^ K"
  define h :: nat where "h = 2 ^ (K - 1)"
  from K have hh: "2 * h = 2 ^ K"
    unfolding h_def by (cases K) simp_all
  from arg_cong[OF hh, of int] have hi: "2 * int h = 2 ^ K"
    by simp
  have M: "M = q * 2 ^ K + r"
    unfolding q_def r_def by (rule div_mult_mod_eq[symmetric])
  have r: "r < 2 ^ K"
    unfolding r_def by simp
  show ?thesis
  proof (cases "h < r \<or> (r = h \<and> odd q)")
    case True
    then have "q' = q + 1"
      unfolding q' q_def r_def h_def by simp
    then have d: "int q' * 2 ^ K - int M = 2 ^ K - int r"
      by (simp add: M algebra_simps)
    from True have hr: "int h \<le> int r" by auto
    from r have "int r < 2 ^ K"
      by (metis of_nat_less_iff of_nat_numeral of_nat_power)
    then have "\<bar>(2::int) ^ K - int r\<bar> = 2 ^ K - int r"
      by simp
    with hr hi show ?thesis
      unfolding d by simp
  next
    case False
    then have "q' = q"
      unfolding q' q_def r_def h_def by simp
    then have d: "int q' * 2 ^ K - int M = - int r"
      by (simp add: M)
    from False have "int r \<le> int h" by auto
    with hi show ?thesis
      unfolding d by simp
  qed
qed

lemma powi_nat: "(2::rat) powi (int n) = 2 ^ n"
  by (rule power_int_of_nat)

lemma powi_add: "(2::rat) powi (a + b) = 2 powi a * 2 powi b"
  by (rule power_int_add) simp

lemma powi_less_exp: "(2::rat) powi a < 2 powi b \<Longrightarrow> a < b"
proof (rule ccontr)
  assume lt: "(2::rat) powi a < 2 powi b" and "\<not> a < b"
  then have "b \<le> a" by simp
  then have "(2::rat) powi b \<le> 2 powi a"
    by (rule power_int_increasing) simp
  with lt show False by simp
qed

lemma exponent_bound:
  fixes M :: nat and E g :: int
  assumes M: "M \<noteq> 0" and v: "of_nat M * 2 powi E < (2::rat) powi g"
  shows "int (bit_length M) + E \<le> g"
proof -
  from M have pos: "bit_length M \<noteq> 0"
    by (simp add: bit_length_pos)
  then have "int (bit_length M) - 1 = int (bit_length M - 1)"
    by simp
  then have "(2::rat) powi (int (bit_length M) - 1 + E) = 2 ^ (bit_length M - 1) * 2 powi E"
    by (simp only: powi_add powi_nat)
  also have "\<dots> \<le> of_nat M * 2 powi E"
  proof (rule mult_right_mono)
    from bit_length_lower[OF M] have "of_nat (2 ^ (bit_length M - 1)) \<le> (of_nat M :: rat)"
      by (simp only: of_nat_le_iff)
    then show "(2::rat) ^ (bit_length M - 1) \<le> of_nat M"
      by simp
    show "0 \<le> (2::rat) powi E"
      by (simp add: zero_less_power_int less_imp_le)
  qed
  finally have "(2::rat) powi (int (bit_length M) - 1 + E) < 2 powi g"
    using v by simp
  then have "int (bit_length M) - 1 + E < g"
    by (rule powi_less_exp)
  then show ?thesis by simp
qed

lemma product_rounding:
  fixes m :: nat and e :: int
  assumes m: "m < 2 ^ 53" and e: "- 1074 \<le> e" and r: "int (bit_length m) + e \<le> 1024"
    and c: "of_nat m * 2 powi e \<le> (1::rat)"
  shows "\<exists>q f. round_binary64 False (m * 100) e = Finite False q f
           \<and> \<bar>of_nat q * 2 powi f - 100 * (of_nat m * 2 powi e)\<bar> \<le> (2::rat) powi (- 47)"
proof (cases "m = 0")
  case True
  with r e have "round_binary64 False (m * 100) e = Finite False 0 e"
    by (simp add: round_binary64_def bit_length_0 Let_def)
  with True show ?thesis by (simp add: zero_less_power_int less_imp_le)
next
  case False
  let ?M = "m * 100"
  let ?L = "bit_length ?M"
  from False have M0: "?M \<noteq> 0" by simp
  have val: "of_nat ?M * 2 powi e = 100 * (of_nat m * (2::rat) powi e)"
    by simp
  with c have "of_nat ?M * 2 powi e \<le> (100::rat)"
    by simp
  also have "(100::rat) < 2 powi 7"
    by simp
  finally have Le: "int ?L + e \<le> 7"
    by (rule exponent_bound[OF M0])
  show ?thesis
  proof (cases "int ?L - 53 \<le> 0")
    case True
    with e Le have "round_binary64 False ?M e = Finite False ?M e"
      by (simp add: round_binary64_def Let_def)
    then show ?thesis
      unfolding val by (simp add: zero_less_power_int less_imp_le)
  next
    case False
    define K where "K = ?L - 53"
    from False e have k: "max (int ?L - 53) (- 1074 - e) = int K" and K: "0 < K"
      unfolding K_def by simp_all
    define q' where "q' = (if 2 ^ (K - 1) < ?M mod 2 ^ K \<or> (?M mod 2 ^ K = 2 ^ (K - 1) \<and> odd (?M div 2 ^ K))
                   then ?M div 2 ^ K + 1 else ?M div 2 ^ K)"
    have eK: "e + int K \<le> - 46"
      using Le False unfolding K_def by simp
    have "?M < 2 ^ ?L"
      by (rule bit_length_upper)
    also have "(2::nat) ^ ?L = 2 ^ 53 * 2 ^ K"
    proof -
      from False have "?L = 53 + K"
        unfolding K_def by simp
      then show ?thesis
        by (simp only: power_add)
    qed
    finally have "?M div 2 ^ K < 2 ^ 53"
      by (simp add: less_mult_imp_div_less)
    then have "q' < 2 ^ 54"
      unfolding q'_def by simp
    then have "bit_length q' \<le> 54"
      by (rule bit_length_le)
    with eK have no_overflow: "\<not> 1024 < int (bit_length q') + (e + int K)"
      by simp
    have res: "round_binary64 False ?M e = Finite False q' (e + int K)"
      unfolding round_binary64_def k Let_def nat_int q'_def[symmetric]
      using K no_overflow by simp
    from round_to_nearest[OF K q'_def] have "2 * \<bar>int q' * 2 ^ K - int ?M\<bar> \<le> 2 ^ K" .
    then have "(of_int (2 * \<bar>int q' * 2 ^ K - int ?M\<bar>) :: rat) \<le> of_int (2 ^ K)"
      by (simp only: of_int_le_iff)
    then have near: "2 * \<bar>of_nat q' * 2 ^ K - of_nat ?M\<bar> \<le> (2::rat) ^ K"
      by simp
    have "of_nat q' * 2 powi (e + int K) - of_nat ?M * (2::rat) powi e
            = (of_nat q' * 2 ^ K - of_nat ?M) * 2 powi e"
      by (simp add: powi_add powi_nat algebra_simps)
    then have "2 * \<bar>of_nat q' * 2 powi (e + int K) - of_nat ?M * (2::rat) powi e\<bar>
            = (2 * \<bar>of_nat q' * 2 ^ K - of_nat ?M\<bar>) * 2 powi e"
      by (simp add: abs_mult zero_less_power_int less_imp_le)
    also have "\<dots> \<le> 2 ^ K * 2 powi e"
      using near by (rule mult_right_mono) (simp add: zero_less_power_int less_imp_le)
    also have "\<dots> = 2 powi (e + int K)"
      by (simp add: powi_add powi_nat)
    also have "\<dots> \<le> 2 powi (- 46)"
      using eK by (rule power_int_increasing) simp
    finally have "\<bar>of_nat q' * 2 powi (e + int K) - of_nat ?M * (2::rat) powi e\<bar> \<le> 2 powi (- 47)"
      by simp
    with res show ?thesis
      unfolding val by blast
  qed
qed

lemma half_up_of_int: "half_up (of_int N) = N"
  unfolding half_up_def by (rule floor_unique) simp_all

lemma shown_round:
  "Number_toString (Math_round (Finite False q f))
     = integer_text False (nat (half_up (of_nat q * 2 powi f)))"
proof (cases "0 \<le> f")
  case True
  then obtain F where f: "f = int F"
    using nonneg_int_cases by blast
  have "of_nat q * (2::rat) powi f = of_int (int (q * 2 ^ F))"
    by (simp add: f powi_nat)
  then have "half_up (of_nat q * 2 powi f) = int (q * 2 ^ F)"
    by (simp only: half_up_of_int)
  then have hv: "nat (half_up (of_nat q * 2 powi f)) = q * 2 ^ nat f"
    by (simp only: nat_int f)
  from True have "Number_toString (Math_round (Finite False q f)) = integer_text False (q * 2 ^ nat f)"
    by simp
  then show ?thesis
    by (simp only: hv)
next
  case False
  define d :: int where "d = 2 ^ nat (- f)"
  define n where "n = (2 * int q + d) div (2 * d)"
  have d: "0 < d"
    unfolding d_def by simp
  from False have "(2::rat) powi f = 1 / of_int d"
    unfolding d_def by (simp add: power_int_def field_simps)
  then have "of_nat q * (2::rat) powi f + 1 / 2 = of_int (2 * int q + d) / of_int (2 * d)"
    using d by (simp add: field_simps)
  then have h: "half_up (of_nat q * 2 powi f) = n"
    unfolding half_up_def n_def by (simp only: floor_divide_of_int_eq)
  have "0 \<le> n"
    unfolding n_def using d by (simp add: pos_imp_zdiv_nonneg_iff)
  then have "nat \<bar>n\<bar> = nat n"
    by simp
  with False show ?thesis
    unfolding h by (simp add: Let_def d_def[symmetric] n_def[symmetric])
qed

lemma percent_of_product:
  assumes res: "round_binary64 False (m * 100) e = Finite False q f"
    and near: "\<bar>of_nat q * 2 powi f - 100 * (of_nat m * 2 powi e)\<bar> \<le> (2::rat) powi (- 47)"
    and c: "of_nat m * 2 powi e \<le> (1::rat)"
  shows "Number_toString (Math_round (number_times (Finite False m e) (Finite False 100 0)))
           = Some (decimal (nat (half_up (of_nat q * 2 powi f))))"
proof -
  let ?p = "of_nat q * (2::rat) powi f"
  have small: "(2::rat) powi (- 47) \<le> 1 / 4"
    by simp
  from near have "?p - 100 * (of_nat m * 2 powi e) \<le> 2 powi (- 47)"
    by (rule abs_le_D1)
  with small c have "?p + 1 / 2 < 101"
    by linarith
  then have "half_up ?p < 101"
    unfolding half_up_def by (simp add: floor_less_iff)
  then have "nat (half_up ?p) < 2 ^ 53"
    by simp
  then have "integer_text False (nat (half_up ?p)) = Some (decimal (nat (half_up ?p)))"
    by (simp add: integer_text_def)
  moreover have "number_times (Finite False m e) (Finite False 100 0) = Finite False q f"
    using res by simp
  ultimately show ?thesis
    by (simp only: shown_round)
qed

text \<open>
  Two checks of the model of Numbers: rounding leaves a value that binary64 has as it is,
  and \<^verbatim>\<open>Math.round\<close> rounds every finite Number half-up.
\<close>

lemma round_binary64_exact:
  "is_binary64 (Finite s m e) \<Longrightarrow> round_binary64 s m e = Finite s m e"
proof -
  assume a: "is_binary64 (Finite s m e)"
  then have "m < 2 ^ 53" by simp
  then have "bit_length m \<le> 53" by (rule bit_length_le)
  with a show ?thesis
    by (simp add: round_binary64_def Let_def)
qed

lemma Math_round_half_up:
  "number_value (Math_round (Finite s m e)) = Some (of_int (half_up (finite_value s m e)))"
proof (cases "0 \<le> e")
  case True
  then obtain F where f: "e = int F"
    using nonneg_int_cases by blast
  have "finite_value s m e = of_int ((if s then - 1 else 1) * int (m * 2 ^ F))"
    by (simp add: finite_value_def f powi_nat)
  then have "of_int (half_up (finite_value s m e)) = finite_value s m e"
    by (simp only: half_up_of_int)
  with True show ?thesis by simp
next
  case False
  define d :: int where "d = 2 ^ nat (- e)"
  define a where "a = (if s then - int m else int m)"
  define n where "n = (2 * a + d) div (2 * d)"
  have d: "0 < d"
    unfolding d_def by simp
  from False have "(2::rat) powi e = 1 / of_int d"
    unfolding d_def by (simp add: power_int_def field_simps)
  then have "finite_value s m e + 1 / 2 = of_int (2 * a + d) / of_int (2 * d)"
    using d by (simp add: finite_value_def a_def field_simps)
  then have h: "half_up (finite_value s m e) = n"
    unfolding half_up_def n_def by (simp only: floor_divide_of_int_eq)
  have sign: "(if s then - 1 else 1) * int (nat \<bar>n\<bar>) = n"
  proof (cases s)
    case True
    then have "2 * a + d < 2 * d"
      using d by (simp add: a_def)
    then have "2 * a + d \<le> 2 * d - 1"
      by simp
    then have "n \<le> (2 * d - 1) div (2 * d)"
      unfolding n_def using d by (intro zdiv_mono1) simp_all
    also have "(2 * d - 1) div (2 * d) = 0"
      using d by (intro div_pos_pos_trivial) simp_all
    finally have "n \<le> 0" .
    with True show ?thesis by simp
  next
    case False
    then have "0 \<le> 2 * a + d"
      using d by (simp add: a_def)
    then have "0 \<le> n"
      unfolding n_def using d by (simp add: pos_imp_zdiv_nonneg_iff)
    with False show ?thesis by simp
  qed
  have "Math_round (Finite s m e) = Finite s (nat \<bar>n\<bar>) 0"
    using False by (simp add: Let_def d_def a_def n_def)
  then have "number_value (Math_round (Finite s m e)) = Some (of_int ((if s then - 1 else 1) * int (nat \<bar>n\<bar>)))"
    by (simp add: finite_value_def)
  then show ?thesis
    by (simp only: sign h)
qed

lemma half_up_mono: "x \<le> y \<Longrightarrow> half_up x \<le> half_up y"
  unfolding half_up_def by (rule floor_mono) simp

lemma percent_absent: "percent_text None = Some (str ''0%'')"
  by (simp add: percent_text_def js_or_def when_truthy_def round_binary64_def bit_length.simps
        integer_text_def decimal.simps str_def)

lemma percent_0666:
  "percent_text (Some (JNum (Finite False 5998794703657501 (- 53)))) = Some (str ''67%'')"
  by (simp add: percent_text_def js_or_def when_truthy_def round_binary64_def bit_length.simps
        Let_def integer_text_def decimal.simps str_def)

lemma percent_0575:
  "percent_text (Some (JNum (Finite False 5179139571476070 (- 53)))) = Some (str ''57%'')"
  by (simp add: percent_text_def js_or_def when_truthy_def round_binary64_def bit_length.simps
        Let_def integer_text_def decimal.simps str_def)

lemma percent_0015:
  "percent_text (Some (JNum (Finite False 8646911284551352 (- 59)))) = Some (str ''2%'')"
  by (simp add: percent_text_def js_or_def when_truthy_def round_binary64_def bit_length.simps
        Let_def integer_text_def decimal.simps str_def)

text \<open>
  C9, as the code has it: the product is a binary64 product. For a confidence that is a
  binary64 number in [0, 1], the product with 100 is a finite number within \<open>2 ^ -47\<close> of
  the exact product, and the text shown is that number rounded half-up to the nearest
  integer, followed by the percent sign. It is the exact product rounded half-up unless
  the exact product is within \<open>2 ^ -47\<close> of a half-integer. An absent confidence is shown
  as 0%, and the number nearest to 0.666 as 67%.
\<close>

theorem percent_text_rounding:
  assumes "is_binary64 (Finite False m e)" and "finite_value False m e \<le> 1"
  shows "(\<exists>p. number_value (number_times (Finite False m e) (Finite False 100 0)) = Some p
            \<and> \<bar>p - 100 * finite_value False m e\<bar> \<le> 2 powi (- 47)
            \<and> percent_text (Some (JNum (Finite False m e))) = Some (decimal (nat (half_up p)) @ str ''%'')
            \<and> (half_up (100 * finite_value False m e - 2 powi (- 47))
                  = half_up (100 * finite_value False m e + 2 powi (- 47))
                \<longrightarrow> half_up p = half_up (100 * finite_value False m e)))
         \<and> percent_text None = Some (str ''0%'')
         \<and> percent_text (Some (JNum (Finite False 5998794703657501 (- 53)))) = Some (str ''67%'')"
proof -
  let ?c = "finite_value False m e"
  from assms have m: "m < 2 ^ 53" and e: "- 1074 \<le> e" and r: "int (bit_length m) + e \<le> 1024"
    and c: "of_nat m * 2 powi e \<le> (1::rat)"
    by (simp_all add: finite_value_def)
  from product_rounding[OF m e r c] obtain q f
    where res: "round_binary64 False (m * 100) e = Finite False q f"
      and near: "\<bar>of_nat q * 2 powi f - 100 * (of_nat m * 2 powi e)\<bar> \<le> (2::rat) powi (- 47)"
    by blast
  let ?p = "of_nat q * (2::rat) powi f"
  have cv: "?c = of_nat m * 2 powi e"
    by (simp add: finite_value_def)
  have 1: "number_value (number_times (Finite False m e) (Finite False 100 0)) = Some ?p"
    using res by (simp add: finite_value_def)
  have 2: "\<bar>?p - 100 * ?c\<bar> \<le> 2 powi (- 47)"
    using near by (simp only: cv)
  have shown: "Number_toString (Math_round (number_times (Finite False m e) (Finite False 100 0)))
           = Some (decimal (nat (half_up ?p)))"
    using res near c by (rule percent_of_product)
  have 3: "percent_text (Some (JNum (Finite False m e))) = Some (decimal (nat (half_up ?p)) @ str ''%'')"
  proof (cases "m = 0")
    case False
    then have "js_or (Some (JNum (Finite False m e))) (JNum (Finite False 0 0)) = JNum (Finite False m e)"
      by (simp add: js_or_def when_truthy_def)
    then show ?thesis
      unfolding percent_text_def by (simp only: ToNumber.simps option.case shown)
  next
    case True
    then have z: "js_or (Some (JNum (Finite False m e))) (JNum (Finite False 0 0)) = JNum (Finite False 0 0)"
      by (simp add: js_or_def when_truthy_def)
    from True near have "\<bar>?p\<bar> \<le> 2 powi (- 47)"
      by simp
    then have "- (2 powi (- 47)) \<le> ?p" and "?p \<le> 2 powi (- 47)"
      by (simp_all only: abs_le_iff minus_le_iff)
    moreover have "(2::rat) powi (- 47) \<le> 1 / 4"
      by simp
    ultimately have "- (1 / 2) \<le> ?p" "?p < 1 / 2"
      by linarith+
    then have "half_up ?p = 0"
      unfolding half_up_def by (intro floor_unique) simp_all
    moreover have "percent_text (Some (JNum (Finite False m e))) = percent_text None"
      unfolding percent_text_def z by (simp add: js_or_def when_truthy_def)
    ultimately show ?thesis
      by (simp add: percent_absent decimal.simps str_def)
  qed
  have 4: "half_up ?p = half_up (100 * ?c)"
    if same: "half_up (100 * ?c - 2 powi (- 47)) = half_up (100 * ?c + 2 powi (- 47))"
  proof -
    from abs_le_D1[OF 2] abs_le_D2[OF 2]
    have lo: "100 * ?c - 2 powi (- 47) \<le> ?p" and hi: "?p \<le> 100 * ?c + 2 powi (- 47)"
      by linarith+
    have "(0::rat) \<le> 2 powi (- 47)"
      by simp
    then have lo': "100 * ?c - 2 powi (- 47) \<le> 100 * ?c" and hi': "100 * ?c \<le> 100 * ?c + 2 powi (- 47)"
      by simp_all
    from half_up_mono[OF lo] half_up_mono[OF hi] half_up_mono[OF lo'] half_up_mono[OF hi'] same
    show ?thesis by linarith
  qed
  from 1 2 3 4 percent_absent percent_0666 show ?thesis
    by blast
qed

lemma half_up_eq: "of_int z \<le> q + 1 / 2 \<Longrightarrow> q + 1 / 2 < of_int z + 1 \<Longrightarrow> half_up q = z"
  unfolding half_up_def by (rule floor_unique)

theorem percent_text_rounding_witness:
  "is_binary64 (Finite False 5998794703657501 (- 53))
   \<and> finite_value False 5998794703657501 (- 53) \<le> 1
   \<and> number_value (number_times (Finite False 5998794703657501 (- 53)) (Finite False 100 0))
       = Some (4686558362232423 / 70368744177664)
   \<and> \<bar>4686558362232423 / 70368744177664 - 100 * finite_value False 5998794703657501 (- 53)\<bar>
       \<le> 2 powi (- 47)
   \<and> percent_text (Some (JNum (Finite False 5998794703657501 (- 53))))
       = Some (decimal (nat (half_up (4686558362232423 / 70368744177664))) @ str ''%'')
   \<and> half_up (4686558362232423 / 70368744177664) = 67"
proof -
  let ?x = "Finite False 5998794703657501 (- 53)"
  have a: "is_binary64 ?x"
    by (simp add: bit_length.simps)
  have b: "finite_value False 5998794703657501 (- 53) \<le> 1"
    by (simp add: finite_value_def)
  have v: "number_value (number_times ?x (Finite False 100 0)) = Some (4686558362232423 / 70368744177664)"
    by (simp add: round_binary64_def bit_length.simps Let_def finite_value_def)
  have h: "half_up (4686558362232423 / 70368744177664) = 67"
    by (rule half_up_eq) simp_all
  from percent_text_rounding[OF a b] obtain p
    where p: "number_value (number_times ?x (Finite False 100 0)) = Some p"
      and near: "\<bar>p - 100 * finite_value False 5998794703657501 (- 53)\<bar> \<le> 2 powi (- 47)"
      and shown: "percent_text (Some (JNum ?x)) = Some (decimal (nat (half_up p)) @ str ''%'')"
    by blast
  from p v have "p = 4686558362232423 / 70368744177664"
    by simp
  with near shown a b v h show ?thesis
    by blast
qed

text \<open>
  The sentence of the specification fails either way it is read. The binary64 number nearest to 0.575
  (closer to it than half a unit in the last place) is shown as 57%, while 0.575 times 100,
  rounded half-up, is 58. And the number nearest to 0.015 lies below 0.015, so that its
  exact product with 100 rounds half-up to 1, while it is shown as 2%.
\<close>

theorem product_rounding_counterexample:
  "percent_text (Some (JNum (Finite False 5179139571476070 (- 53)))) = Some (str ''57%'')
   \<and> 2 * \<bar>finite_value False 5179139571476070 (- 53) - 575 / 1000\<bar> < 2 powi (- 53)
   \<and> half_up (575 / 1000 * 100) = 58
   \<and> percent_text (Some (JNum (Finite False 8646911284551352 (- 59)))) = Some (str ''2%'')
   \<and> 2 * \<bar>finite_value False 8646911284551352 (- 59) - 15 / 1000\<bar> < 2 powi (- 59)
   \<and> half_up (finite_value False 8646911284551352 (- 59) * 100) = 1"
proof -
  have "2 * \<bar>finite_value False 5179139571476070 (- 53) - 575 / 1000\<bar> < 2 powi (- 53)"
    by (simp add: finite_value_def)
  moreover have "half_up (575 / 1000 * 100) = 58"
    by (rule half_up_eq) simp_all
  moreover have "2 * \<bar>finite_value False 8646911284551352 (- 59) - 15 / 1000\<bar> < 2 powi (- 59)"
    by (simp add: finite_value_def)
  moreover have "half_up (finite_value False 8646911284551352 (- 59) * 100) = 1"
    by (rule half_up_eq) (simp_all add: finite_value_def)
  ultimately show ?thesis
    using percent_0575 percent_0015 by blast
qed

end
